theory Spec2Isabelle
  imports Main
begin

section \<open>Typed-FSM: the builder, the dispatcher and the observable adapter\<close>

text \<open>
  A shallow embedding of \<^verbatim>\<open>fsm.ts\<close>. The type \<open>'v\<close> is the root type of the state
  values (\<^verbatim>\<open>STATES\<close>), \<open>'p\<close> the type of message payloads and \<open>'i\<close> the input of the
  initial-state factory.

  The repository holds two versions of the file. The embedding follows the later one,
  whose behavior entries have the fields \<^verbatim>\<open>onEnter\<close> and \<^verbatim>\<open>handling\<close>; the earlier one calls
  them \<^verbatim>\<open>lifecycle\<close> and \<^verbatim>\<open>transitions\<close> and stores the result of the lifecycle function as
  it is, where the later one stores an empty hook set for a result that is undefined. The
  dispatcher is otherwise the same.

  An object that is compared with \<^verbatim>\<open>===\<close> is an address; its content lives in a table
  from addresses to contents.
\<close>

subsection \<open>Objects used as dictionaries\<close>

text \<open>
  The state map, the message map, the behavior map and the \<^verbatim>\<open>handling\<close> table of a behavior
  entry are plain objects: their prototype is \<^verbatim>\<open>Object.prototype\<close>, which is taken as the
  language defines it. An object whose keys are enumerated is the list of its own
  properties in the order they were given, one per name (the order of declaration of an
  object literal); an object that is only looked up is the map of its own properties.
  Every own property holds a value that is not \<^verbatim>\<open>undefined\<close>.

  \<^verbatim>\<open>object[key]\<close> finds an own property or else a member the object inherits from
  \<^verbatim>\<open>Object.prototype\<close>: eleven functions and \<^verbatim>\<open>__proto__\<close>, which gives the prototype
  itself. None of the twelve has a property \<^verbatim>\<open>handling\<close> or \<^verbatim>\<open>onEnter\<close>, and any two of them
  are different objects.
\<close>

definition Object_prototype :: "string list" where
  "Object_prototype =
     [''constructor'', ''__defineGetter__'', ''__defineSetter__'', ''hasOwnProperty'',
      ''__lookupGetter__'', ''__lookupSetter__'', ''isPrototypeOf'', ''propertyIsEnumerable'',
      ''toString'', ''valueOf'', ''__proto__'', ''toLocaleString'']"

datatype 'a property = Own 'a | Inherited string | Undefined

definition Get :: "(string \<rightharpoonup> 'a) \<Rightarrow> string \<Rightarrow> 'a property" where
  "Get object key =
     (case object key of
        Some x \<Rightarrow> Own x
      | None \<Rightarrow> if key \<in> set Object_prototype then Inherited key else Undefined)"

text \<open>
  \<^verbatim>\<open>Object.keys\<close> and \<^verbatim>\<open>for ... in\<close> enumerate the own properties with the names that are
  array indices first, in ascending numeric order, and then the other names in the order
  the properties were given. An array index is the canonical decimal numeral of an
  integer from 0 to \<open>2^32 - 2\<close>.
\<close>

definition digit :: "char \<rightharpoonup> nat" where
  "digit =
     [CHR ''0'' \<mapsto> 0, CHR ''1'' \<mapsto> 1, CHR ''2'' \<mapsto> 2, CHR ''3'' \<mapsto> 3, CHR ''4'' \<mapsto> 4,
      CHR ''5'' \<mapsto> 5, CHR ''6'' \<mapsto> 6, CHR ''7'' \<mapsto> 7, CHR ''8'' \<mapsto> 8, CHR ''9'' \<mapsto> 9]"

fun decimal :: "nat \<Rightarrow> string \<Rightarrow> nat option" where
  "decimal n [] = Some n"
| "decimal n (c # cs) =
     (case digit c of
        None \<Rightarrow> None
      | Some k \<Rightarrow> decimal (10 * n + k) cs)"

definition array_index :: "string \<Rightarrow> nat option" where
  "array_index key =
     (if key = [] \<or> (hd key = CHR ''0'' \<and> key \<noteq> ''0'') then None
      else case decimal 0 key of
             None \<Rightarrow> None
           | Some i \<Rightarrow> if i < 2 ^ 32 - 1 then Some i else None)"

text \<open>The own properties in the order of \<^verbatim>\<open>Object.keys\<close>, each key with its value.\<close>

definition Object_entries :: "(string \<times> 'a) list \<Rightarrow> (string \<times> 'a) list" where
  "Object_entries object =
     sort_key (\<lambda>e. case array_index (fst e) of Some i \<Rightarrow> i | None \<Rightarrow> 0)
       (filter (\<lambda>e. array_index (fst e) \<noteq> None) object) @
     filter (\<lambda>e. array_index (fst e) = None) object"

subsection \<open>States\<close>

record 'v FSMState =
  state_is :: "'v \<Rightarrow> bool"

type_synonym 'v StateMap = "(string \<times> 'v FSMState) list"

subsection \<open>Messages\<close>

type_synonym MessageId = nat

record FSMMessage =
  message_id :: MessageId

record 'p MessageInstance =
  instance_id :: MessageId
  instance_value :: 'p

text \<open>\<^verbatim>\<open>let messageId = 1\<close>: the module-level counter is threaded through \<open>create\<close>.\<close>

definition messageId_initial :: MessageId where
  "messageId_initial = 1"

definition FSMMessage_create :: "MessageId \<Rightarrow> FSMMessage \<times> MessageId" where
  "FSMMessage_create messageId = (\<lparr>message_id = messageId\<rparr>, messageId + 1)"

text \<open>Invoking a descriptor on a payload: \<^verbatim>\<open>(value) => ({ _id, value })\<close>.\<close>

definition invoke :: "FSMMessage \<Rightarrow> 'p \<Rightarrow> 'p MessageInstance" where
  "invoke message v = \<lparr>instance_id = message_id message, instance_value = v\<rparr>"

text \<open>\<open>n\<close> successive calls of \<open>create\<close>, the descriptors in the order of the calls.\<close>

fun creates :: "nat \<Rightarrow> MessageId \<Rightarrow> FSMMessage list \<times> MessageId" where
  "creates 0 messageId = ([], messageId)"
| "creates (Suc n) messageId =
     (let (m, messageId') = FSMMessage_create messageId;
          (ms, messageId'') = creates n messageId'
      in (m # ms, messageId''))"

type_synonym MessageMap = "(string \<times> FSMMessage) list"

subsection \<open>Behaviors\<close>

text \<open>
  A transition function, \<open>onEnter\<close>, \<open>onUpdate\<close> and \<open>onExit\<close> are closures of the caller.
  What a closure does when it is called with given arguments is a list of statements, run
  in order: an effect on the outside world, recorded by its label (a call of a mock
  function, say), or a synchronous \<^verbatim>\<open>self.send.<name>(payload)\<close>. What it returns is a
  function of its arguments. An error thrown by a nested send passes through the closure
  to the caller.
\<close>

datatype 'p stmt = Emit string | SelfSend string 'p

record ('v, 'p) Hooks =
  onUpdate :: "('v \<Rightarrow> 'v \<Rightarrow> 'p stmt list) option"
  onExit :: "('v \<Rightarrow> 'p stmt list) option"

type_synonym ('v, 'p) Lifecycle = "'v \<Rightarrow> 'p stmt list \<times> ('v, 'p) Hooks option"

type_synonym ('v, 'p) Handler = "'v \<Rightarrow> 'p \<Rightarrow> 'p stmt list \<times> 'v"

record ('v, 'p) Behavior =
  onEnter :: "('v, 'p) Lifecycle option"
  handling :: "string \<rightharpoonup> ('v, 'p) Handler"

type_synonym ref = nat

definition noTransition :: "string \<Rightarrow> string \<Rightarrow> string" where
  "noTransition state message =
     ''No transition encoded for ('' @ state @ '', '' @ message @ ''), message ignored''"

subsection \<open>The staged builder\<close>

record 'v FSMWithStates =
  ws_states :: "'v StateMap"

record ('v, 'i) FSMWithStatesInitialized =
  wsi_states :: "'v StateMap"
  wsi_factory :: "'i \<Rightarrow> 'v"

record ('v, 'i) FSMMessagesInitialized =
  mi_states :: "'v StateMap"
  mi_factory :: "'i \<Rightarrow> 'v"
  mi_messages :: MessageMap

text \<open>
  The behavior map gives each state name the address of its behavior entry; \<open>entries\<close>
  holds the entries themselves.
\<close>

record ('v, 'i, 'p) FSMDescription =
  states :: "'v StateMap"
  factory :: "'i \<Rightarrow> 'v"
  messages :: MessageMap
  behaviors :: "string \<rightharpoonup> ref"
  entries :: "ref \<Rightarrow> ('v, 'p) Behavior"

text \<open>
  What a call can throw. \<open>Unmodelled member\<close> is no exception of the program: it ends a
  call at the point where the program calls the member of that name of
  \<^verbatim>\<open>Object.prototype\<close> in the place of a closure of the description and goes on with what
  the member returns, which is beyond this embedding.
\<close>

datatype error = Error string | TypeError | RangeError | Unmodelled string

definition FSMTyped_states :: "'v StateMap \<Rightarrow> 'v FSMWithStates" where
  "FSMTyped_states sm = \<lparr>ws_states = sm\<rparr>"

definition withInitialState ::
  "'v FSMWithStates \<Rightarrow> ('i \<Rightarrow> 'v) \<Rightarrow> ('v, 'i) FSMWithStatesInitialized" where
  "withInitialState b f = \<lparr>wsi_states = ws_states b, wsi_factory = f\<rparr>"

definition FSMWithStatesInitialized_messages ::
  "('v, 'i) FSMWithStatesInitialized \<Rightarrow> MessageMap \<Rightarrow> ('v, 'i) FSMMessagesInitialized" where
  "FSMWithStatesInitialized_messages b mm =
     \<lparr>mi_states = wsi_states b, mi_factory = wsi_factory b, mi_messages = mm\<rparr>"

text \<open>
  \<^verbatim>\<open>behaviors(behaviors)\<close> returns \<^verbatim>\<open>new FSMDescription(...)\<close>, whose constructor builds
  the key list, the reverse message map and the closures, and has no \<^verbatim>\<open>throw\<close>: the result
  is always \<open>Inr\<close>. The argument is the behavior map, from state names to the addresses of
  the behavior entries, with the table of the entries.
\<close>

definition FSMMessagesInitialized_behaviors ::
  "('v, 'i) FSMMessagesInitialized \<Rightarrow> (string \<rightharpoonup> ref) \<Rightarrow> (ref \<Rightarrow> ('v, 'p) Behavior) \<Rightarrow>
     error + ('v, 'i, 'p) FSMDescription" where
  "FSMMessagesInitialized_behaviors b bm heap =
     Inr \<lparr>states = mi_states b, factory = mi_factory b, messages = mi_messages b,
          behaviors = bm, entries = heap\<rparr>"

subsection \<open>The closures of the description\<close>

text \<open>\<^verbatim>\<open>for (let messageName in messages) reverseMessageMap[messageId] = messageName\<close>\<close>

definition reverseMessageMap :: "('v, 'i, 'p) FSMDescription \<Rightarrow> (MessageId \<rightharpoonup> string)" where
  "reverseMessageMap d =
     fold (\<lambda>(messageName, m) r. r(message_id m \<mapsto> messageName))
       (Object_entries (messages d)) Map.empty"

text \<open>
  The loop of \<open>findStateKey\<close> over \<^verbatim>\<open>stateKeys = Object.keys(states)\<close>, from some index on:
  the key at the index and the predicate \<^verbatim>\<open>states[key].is\<close> are the entry at the index.
\<close>

fun findStateKey_from :: "'v StateMap \<Rightarrow> 'v \<Rightarrow> string option" where
  "findStateKey_from [] state = None"
| "findStateKey_from ((key, st) # rest) state =
     (if state_is st state then Some key else findStateKey_from rest state)"

definition findStateKey :: "('v, 'i, 'p) FSMDescription \<Rightarrow> 'v \<Rightarrow> string option" where
  "findStateKey d state = findStateKey_from (Object_entries (states d)) state"

text \<open>
  \<^verbatim>\<open>stateKey !== undefined ? behaviors[stateKey] : undefined\<close>: the address of a behavior
  entry, or a member of \<^verbatim>\<open>Object.prototype\<close> when the behavior map has no entry of its own
  under a state name that every object inherits.
\<close>

definition findStateBehavior :: "('v, 'i, 'p) FSMDescription \<Rightarrow> 'v \<Rightarrow> ref property" where
  "findStateBehavior d state =
     (case findStateKey d state of
        Some stateKey \<Rightarrow> Get (behaviors d) stateKey
      | None \<Rightarrow> Undefined)"

text \<open>\<^verbatim>\<open>behavior.onEnter\<close>, which a member of \<^verbatim>\<open>Object.prototype\<close> does not have.\<close>

fun behavior_onEnter ::
  "('v, 'i, 'p) FSMDescription \<Rightarrow> ref property \<Rightarrow> ('v, 'p) Lifecycle option" where
  "behavior_onEnter d (Own behavior) = onEnter (entries d behavior)"
| "behavior_onEnter d (Inherited member) = None"
| "behavior_onEnter d Undefined = None"

subsection \<open>The world: instances, observers, the console and the outside\<close>

text \<open>
  \<^verbatim>\<open>console.error\<close> and \<^verbatim>\<open>console.warn\<close> calls, with the data they are given (the constant
  tables of the description are left out).
\<close>

datatype ('v, 'p) console_call =
    Error_state 'v FSMMessage 'p
  | Error_message FSMMessage 'p
  | Warn_text string
  | Warn_dump string 'v

record ('v, 'p) FSMInstance =
  inst_value :: 'v
  inst_hooks :: "('v, 'p) Hooks option"

text \<open>
  \<open>followers\<close> is keyed by the callback id; ids are handed out in increasing order, so
  a new entry goes last and the entries are in the order of \<^verbatim>\<open>Object.keys\<close>. A listener is
  a callback of the caller, known by its label; calling it with a value appends the pair
  to \<open>deliveries\<close>.
\<close>

record InternalObserver =
  followers :: "(nat \<times> string) list"
  cbId :: nat

record ('v, 'p) world =
  instances :: "ref \<Rightarrow> ('v, 'p) FSMInstance"
  next_instance :: ref
  observers :: "ref \<Rightarrow> InternalObserver"
  next_observer :: ref
  console :: "('v, 'p) console_call list"
  trace :: "string list"
  deliveries :: "(string \<times> 'v) list"

text \<open>The four closures \<open>dispatch\<close> is given: setters and getters of one instance.\<close>

record ('v, 'p) accessors =
  stateSet :: "'v \<Rightarrow> ('v, 'p) world \<Rightarrow> ('v, 'p) world"
  stateGet :: "('v, 'p) world \<Rightarrow> 'v"
  hookSet :: "('v, 'p) Hooks option \<Rightarrow> ('v, 'p) world \<Rightarrow> ('v, 'p) world"
  hookGet :: "('v, 'p) world \<Rightarrow> ('v, 'p) Hooks option"

text \<open>
  A call returns the world it leaves, or throws: \<open>Inl\<close> carries the error and the world at
  the moment of the throw (nothing is rolled back).
\<close>

type_synonym ('v, 'p) outcome = "(error \<times> ('v, 'p) world) + ('v, 'p) world"

definition no_state_error :: error where
  "no_state_error = Error ''Could not find any matching state definition, message ignored''"

definition log :: "('v, 'p) console_call \<Rightarrow> ('v, 'p) world \<Rightarrow> ('v, 'p) world" where
  "log c w = w\<lparr>console := console w @ [c]\<rparr>"

definition emptyHooks :: "('v, 'p) Hooks" where
  "emptyHooks = \<lparr>onUpdate = None, onExit = None\<rparr>"

text \<open>
  \<^verbatim>\<open>stateBehavior.handling[messageKey] || stateBehavior.handling['_']\<close>: a handler, or a
  member of \<^verbatim>\<open>Object.prototype\<close> when the table has no handler of its own under a message
  name that every object inherits.
\<close>

definition messageTransition :: "('v, 'p) Behavior \<Rightarrow> string \<Rightarrow> ('v, 'p) Handler property" where
  "messageTransition stateBehavior messageKey =
     (case Get (handling stateBehavior) messageKey of
        Undefined \<Rightarrow> Get (handling stateBehavior) ''_''
      | transition \<Rightarrow> transition)"

text \<open>
  \<^verbatim>\<open>messageTransition(self, state, messagePayload)\<close> when the transition function is a member
  of \<^verbatim>\<open>Object.prototype\<close>. The call is a plain call in strict code, so \<^verbatim>\<open>this\<close> is undefined:
  \<^verbatim>\<open>toString\<close> returns the string \<^verbatim>\<open>[object Undefined]\<close> and \<^verbatim>\<open>constructor\<close>, which is
  \<^verbatim>\<open>Object\<close>, returns \<^verbatim>\<open>self\<close>, and the dispatcher goes on to apply the state predicates to
  that; the other functions throw a \<open>TypeError\<close> when they convert \<^verbatim>\<open>this\<close> to an object, and
  \<^verbatim>\<open>__proto__\<close> is not a function.
\<close>

definition Object_prototype_call :: "string \<Rightarrow> error" where
  "Object_prototype_call member =
     (if member = ''constructor'' \<or> member = ''toString'' then Unmodelled member
      else TypeError)"

text \<open>
  \<^verbatim>\<open>send[messageKey](payload)\<close> for a name that is not a declared message: \<^verbatim>\<open>send[messageKey]\<close>
  is undefined, which is not a function, or a member of \<^verbatim>\<open>Object.prototype\<close>.
\<close>

definition send_undeclared :: "string \<Rightarrow> error" where
  "send_undeclared messageKey =
     (if messageKey \<in> set Object_prototype then Unmodelled messageKey else TypeError)"

subsection \<open>The dispatcher\<close>

text \<open>
  \<open>exec\<close> runs the body of a closure, \<open>sendFactory\<close> is the function of that name applied
  to a message and a payload, \<open>lifecycle\<close> is its last part (from \<^verbatim>\<open>hookGet()\<close> on). The
  first argument bounds the depth of nested \<^verbatim>\<open>send\<close> calls: a \<^verbatim>\<open>send\<close> with no stack left
  throws \<open>RangeError\<close>. When the behavior of the current state is a member of
  \<^verbatim>\<open>Object.prototype\<close>, \<^verbatim>\<open>stateBehavior.handling\<close> is undefined and reading a property of it
  throws a \<open>TypeError\<close>.
\<close>

fun exec :: "nat \<Rightarrow> ('v, 'i, 'p) FSMDescription \<Rightarrow> ('v, 'p) accessors \<Rightarrow> 'p stmt list \<Rightarrow>
               ('v, 'p) world \<Rightarrow> ('v, 'p) outcome"
and lifecycle :: "nat \<Rightarrow> ('v, 'i, 'p) FSMDescription \<Rightarrow> ('v, 'p) accessors \<Rightarrow> 'v \<Rightarrow> 'v \<Rightarrow>
               ref property \<Rightarrow> ref property \<Rightarrow> ('v, 'p) world \<Rightarrow> ('v, 'p) outcome"
and sendFactory :: "nat \<Rightarrow> ('v, 'i, 'p) FSMDescription \<Rightarrow> ('v, 'p) accessors \<Rightarrow> FSMMessage \<Rightarrow> 'p \<Rightarrow>
               ('v, 'p) world \<Rightarrow> ('v, 'p) outcome" where
  "exec n d acc [] w = Inr w"
| "exec n d acc (Emit l # body) w = exec n d acc body (w\<lparr>trace := trace w @ [l]\<rparr>)"
| "exec n d acc (SelfSend messageKey payload # body) w =
     (case map_of (messages d) messageKey of
        None \<Rightarrow> Inl (send_undeclared messageKey, w)
      | Some message \<Rightarrow>
          (case sendFactory n d acc message payload w of
             Inl e \<Rightarrow> Inl e
           | Inr w' \<Rightarrow> exec n d acc body w'))"
| "lifecycle n d acc state newState stateBehavior newStateBehavior w =
     (let currentHooks = hookGet acc w;
          stillInSameState = (newStateBehavior = stateBehavior)
      in if stillInSameState then
           (case currentHooks of
              None \<Rightarrow> Inr w
            | Some h \<Rightarrow>
                (case onUpdate h of
                   None \<Rightarrow> Inr w
                 | Some f \<Rightarrow> exec n d acc (f state newState) w))
         else
           (case (case currentHooks of
                    None \<Rightarrow> Inr w
                  | Some h \<Rightarrow>
                      (case onExit h of
                         None \<Rightarrow> Inr w
                       | Some f \<Rightarrow> exec n d acc (f state) w)) of
              Inl e \<Rightarrow> Inl e
            | Inr w' \<Rightarrow>
                (case behavior_onEnter d newStateBehavior of
                   Some enter \<Rightarrow>
                     (case exec n d acc (fst (enter newState)) w' of
                        Inl e \<Rightarrow> Inl e
                      | Inr w'' \<Rightarrow>
                          Inr (hookSet acc
                                (Some (case snd (enter newState) of
                                         None \<Rightarrow> emptyHooks
                                       | Some newHook \<Rightarrow> newHook)) w''))
                 | None \<Rightarrow> Inr (hookSet acc None w'))))"
| "sendFactory 0 d acc message messagePayload w = Inl (RangeError, w)"
| "sendFactory (Suc n) d acc message messagePayload w =
     (let state = stateGet acc w in
      case (findStateKey d state, findStateBehavior d state) of
        (Some stateKey, Own stateBehavior) \<Rightarrow>
          (case reverseMessageMap d (message_id message) of
             None \<Rightarrow> Inl (no_state_error, log (Error_message message messagePayload) w)
           | Some messageKey \<Rightarrow>
               (case messageTransition (entries d stateBehavior) messageKey of
                  Undefined \<Rightarrow>
                    Inr (log (Warn_dump messageKey state)
                          (log (Warn_text (noTransition stateKey messageKey)) w))
                | Inherited member \<Rightarrow> Inl (Object_prototype_call member, w)
                | Own transition \<Rightarrow>
                    (case exec n d acc (fst (transition state messagePayload)) w of
                       Inl e \<Rightarrow> Inl e
                     | Inr w' \<Rightarrow>
                         (let newState = snd (transition state messagePayload);
                              newStateBehavior = findStateBehavior d newState
                          in if newStateBehavior = Undefined then
                               Inl (no_state_error,
                                    log (Error_state newState message messagePayload) w')
                             else
                               lifecycle n d acc state newState (Own stateBehavior)
                                 newStateBehavior (stateSet acc newState w')))))
      | (Some stateKey, Inherited member) \<Rightarrow>
          (case reverseMessageMap d (message_id message) of
             None \<Rightarrow> Inl (no_state_error, log (Error_message message messagePayload) w)
           | Some messageKey \<Rightarrow> Inl (TypeError, w))
      | _ \<Rightarrow> Inl (no_state_error, log (Error_state state message messagePayload) w))"

text \<open>\<^verbatim>\<open>send[messageKey] = sendFactory(messages[messageKey])\<close>, called with a payload.\<close>

definition send :: "nat \<Rightarrow> ('v, 'i, 'p) FSMDescription \<Rightarrow> ('v, 'p) accessors \<Rightarrow> string \<Rightarrow> 'p \<Rightarrow>
               ('v, 'p) world \<Rightarrow> ('v, 'p) outcome" where
  "send n d acc messageKey payload w =
     (case map_of (messages d) messageKey of
        None \<Rightarrow> Inl (send_undeclared messageKey, w)
      | Some message \<Rightarrow> sendFactory n d acc message payload w)"

text \<open>A sequence of sends, one after the other; a throw ends it.\<close>

fun sends :: "nat \<Rightarrow> ('v, 'i, 'p) FSMDescription \<Rightarrow> ('v, 'p) accessors \<Rightarrow> (string \<times> 'p) list \<Rightarrow>
               ('v, 'p) world \<Rightarrow> ('v, 'p) outcome" where
  "sends n d acc [] w = Inr w"
| "sends n d acc ((messageKey, payload) # rest) w =
     (case send n d acc messageKey payload w of
        Inl e \<Rightarrow> Inl e
      | Inr w' \<Rightarrow> sends n d acc rest w')"

subsection \<open>Instances\<close>

text \<open>
  The closures the constructor of \<open>FSMInstance\<close> hands to \<open>dispatch\<close>:
  \<^verbatim>\<open>(newState) => this._value = newState\<close>, \<^verbatim>\<open>() => this._value\<close>,
  \<^verbatim>\<open>(hooks) => this._hooks = hooks\<close>, \<^verbatim>\<open>() => this._hooks\<close>.
\<close>

definition instance_accessors :: "ref \<Rightarrow> ('v, 'p) accessors" where
  "instance_accessors this =
     \<lparr>stateSet = (\<lambda>newState w. w\<lparr>instances := (instances w)(this := (instances w this)\<lparr>inst_value := newState\<rparr>)\<rparr>),
      stateGet = (\<lambda>w. inst_value (instances w this)),
      hookSet = (\<lambda>hooks w. w\<lparr>instances := (instances w)(this := (instances w this)\<lparr>inst_hooks := hooks\<rparr>)\<rparr>),
      hookGet = (\<lambda>w. inst_hooks (instances w this))\<rparr>"

text \<open>
  \<^verbatim>\<open>new FSMInstance(initialValue, dispatch, findStateBehavior)\<close>: \<open>dispatch\<close> is the
  description's own, or the observable adapter's wrapper around it; here it is what the
  wrapper does to the accessors. The result is the new instance: its address, and the
  dispatcher whose \<^verbatim>\<open>send\<close> is the \<^verbatim>\<open>send\<close> of the instance (\<^verbatim>\<open>this.send = dispatcher.send\<close>).
\<close>

type_synonym ('v, 'p) FSMHandle = "ref \<times> ('v, 'p) accessors"

definition FSMInstance_new ::
  "nat \<Rightarrow> ('v, 'i, 'p) FSMDescription \<Rightarrow> (('v, 'p) accessors \<Rightarrow> ('v, 'p) accessors) \<Rightarrow> 'v \<Rightarrow>
     ('v, 'p) world \<Rightarrow> (error \<times> ('v, 'p) world) + (('v, 'p) FSMHandle \<times> ('v, 'p) world)" where
  "FSMInstance_new n d dispatch initialValue w =
     (let this = next_instance w;
          w0 = w\<lparr>instances := (instances w)(this := \<lparr>inst_value = initialValue, inst_hooks = None\<rparr>),
                 next_instance := this + 1\<rparr>;
          dispatcher = dispatch (instance_accessors this);
          initialBehavior = findStateBehavior d (inst_value (instances w0 this))
      in case behavior_onEnter d initialBehavior of
           None \<Rightarrow> Inr ((this, dispatcher), w0)
         | Some enter \<Rightarrow>
             (case exec n d dispatcher (fst (enter (inst_value (instances w0 this)))) w0 of
                Inl e \<Rightarrow> Inl e
              | Inr w' \<Rightarrow>
                  Inr ((this, dispatcher),
                       w'\<lparr>instances := (instances w')(this := (instances w' this)
                            \<lparr>inst_hooks := snd (enter (inst_value (instances w0 this)))\<rparr>)\<rparr>)))"

definition create ::
  "nat \<Rightarrow> ('v, 'i, 'p) FSMDescription \<Rightarrow> 'i \<Rightarrow> ('v, 'p) world \<Rightarrow>
     (error \<times> ('v, 'p) world) + (('v, 'p) FSMHandle \<times> ('v, 'p) world)" where
  "create n d initial w = FSMInstance_new n d (\<lambda>acc. acc) (factory d initial) w"

subsection \<open>The observable adapter\<close>

definition InternalObserver_new :: InternalObserver where
  "InternalObserver_new = \<lparr>followers = [], cbId = 0\<rparr>"

text \<open>\<open>onValue\<close> returns the id under which the callback is stored, which is what the
  subscription closes over.\<close>

definition onValue :: "ref \<Rightarrow> string \<Rightarrow> ('v, 'p) world \<Rightarrow> nat \<times> ('v, 'p) world" where
  "onValue observer callback w =
     (let ob = observers w observer;
          callbackId = cbId ob
      in (callbackId,
          w\<lparr>observers := (observers w)(observer :=
               ob\<lparr>cbId := callbackId + 1,
                  followers := followers ob @ [(callbackId, callback)]\<rparr>)\<rparr>))"

definition unsubscribe :: "ref \<Rightarrow> nat \<Rightarrow> ('v, 'p) world \<Rightarrow> ('v, 'p) world" where
  "unsubscribe observer callbackId w =
     w\<lparr>observers := (observers w)(observer :=
          (observers w observer)\<lparr>followers := filter (\<lambda>(k, _). k \<noteq> callbackId) (followers (observers w observer))\<rparr>)\<rparr>"

definition observer_next :: "ref \<Rightarrow> 'v \<Rightarrow> ('v, 'p) world \<Rightarrow> ('v, 'p) world" where
  "observer_next observer t w =
     w\<lparr>deliveries := deliveries w @ map (\<lambda>(_, callback). (callback, t)) (followers (observers w observer))\<rparr>"

text \<open>
  The hook given to \<open>observable\<close> is a closure of the caller that receives the observer:
  it attaches the listeners \<open>observableHook od observer\<close> and returns the observer as the
  handle, through which more listeners can be attached later.
\<close>

record ('v, 'i, 'p) FSMDescriptionWithObservable =
  description :: "('v, 'i, 'p) FSMDescription"
  observableHook :: "ref \<Rightarrow> string list"

definition observable ::
  "('v, 'i, 'p) FSMDescription \<Rightarrow> (ref \<Rightarrow> string list) \<Rightarrow>
     ('v, 'i, 'p) FSMDescriptionWithObservable" where
  "observable d hook = \<lparr>description = d, observableHook = hook\<rparr>"

text \<open>The wrapper: \<^verbatim>\<open>newStateSet = (state) => { stateSet(state); observer.next(state) }\<close>.\<close>

definition observable_dispatch :: "ref \<Rightarrow> ('v, 'p) accessors \<Rightarrow> ('v, 'p) accessors" where
  "observable_dispatch observer acc =
     acc\<lparr>stateSet := (\<lambda>state w. observer_next observer state (stateSet acc state w))\<rparr>"

text \<open>The result is the observable instance: the instance and its \<^verbatim>\<open>asObservable\<close> handle.\<close>

definition observable_create ::
  "nat \<Rightarrow> ('v, 'i, 'p) FSMDescriptionWithObservable \<Rightarrow> 'i \<Rightarrow> ('v, 'p) world \<Rightarrow>
     (error \<times> ('v, 'p) world) + ((('v, 'p) FSMHandle \<times> ref) \<times> ('v, 'p) world)" where
  "observable_create n od initial w =
     (let observer = next_observer w;
          w1 = w\<lparr>observers := (observers w)(observer := InternalObserver_new),
                 next_observer := observer + 1\<rparr>;
          w2 = fold (\<lambda>callback w. snd (onValue observer callback w)) (observableHook od observer) w1;
          initialValue = factory (description od) initial;
          w3 = observer_next observer initialValue w2
      in case FSMInstance_new n (description od) (observable_dispatch observer) initialValue w3 of
           Inl e \<Rightarrow> Inl e
         | Inr (this, w4) \<Rightarrow> Inr ((this, observer), w4))"


subsection \<open>Closures that do not send\<close>

fun is_Emit :: "'p stmt \<Rightarrow> bool" where
  "is_Emit (Emit l) = True"
| "is_Emit (SelfSend k p) = False"

text \<open>The effects on the outside that a body has by itself, in order.\<close>

fun effects :: "'p stmt list \<Rightarrow> string list" where
  "effects [] = []"
| "effects (Emit l # body) = l # effects body"
| "effects (SelfSend k p # body) = effects body"

text \<open>The world an outcome leaves, thrown or not.\<close>

fun world_of :: "('v, 'p) outcome \<Rightarrow> ('v, 'p) world" where
  "world_of (Inl (e, w)) = w"
| "world_of (Inr w) = w"

subsection \<open>The video player of the tests\<close>

datatype VideoPlayerState = Idle | Playing int | Paused int

datatype Payload = Empty | Seek int

fun isIdle :: "VideoPlayerState \<Rightarrow> bool" where
  "isIdle Idle = True"
| "isIdle _ = False"

fun isPaused :: "VideoPlayerState \<Rightarrow> bool" where
  "isPaused (Paused t) = True"
| "isPaused _ = False"

fun isPlaying :: "VideoPlayerState \<Rightarrow> bool" where
  "isPlaying (Playing t) = True"
| "isPlaying _ = False"

fun currentTime :: "VideoPlayerState \<Rightarrow> int" where
  "currentTime (Playing t) = t"
| "currentTime (Paused t) = t"
| "currentTime Idle = 0"

definition videoPlayerStates :: "VideoPlayerState StateMap" where
  "videoPlayerStates =
     [(''idle'', \<lparr>state_is = isIdle\<rparr>), (''paused'', \<lparr>state_is = isPaused\<rparr>),
      (''playing'', \<lparr>state_is = isPlaying\<rparr>)]"

text \<open>\<^verbatim>\<open>play\<close>, \<^verbatim>\<open>stop\<close>, \<^verbatim>\<open>pause\<close>, \<^verbatim>\<open>seek\<close>: the first four descriptors created.\<close>

definition videoPlayerMessages :: MessageMap where
  "videoPlayerMessages =
     zip [''play'', ''stop'', ''pause'', ''seek''] (fst (creates 4 messageId_initial))"

definition videoPlayerSkeleton :: "(VideoPlayerState, unit) FSMMessagesInitialized" where
  "videoPlayerSkeleton =
     FSMWithStatesInitialized_messages (withInitialState (FSMTyped_states videoPlayerStates) (\<lambda>_. Idle))
       videoPlayerMessages"

text \<open>
  The behaviors of the end-to-end example. A payload that is not a \<open>Seek\<close> cannot reach the
  \<^verbatim>\<open>seek\<close> handler of a typed program; the handler then keeps the state.
\<close>

definition idleBehavior :: "(VideoPlayerState, Payload) Behavior" where
  "idleBehavior =
     \<lparr>onEnter = None,
      handling = [''play'' \<mapsto> (\<lambda>state message. ([], Playing 0))]\<rparr>"

definition pausedBehavior :: "(VideoPlayerState, Payload) Behavior" where
  "pausedBehavior =
     \<lparr>onEnter = None,
      handling = [''play'' \<mapsto> (\<lambda>state message. ([], Playing 0))]\<rparr>"

definition playingBehavior :: "(VideoPlayerState, Payload) Behavior" where
  "playingBehavior =
     \<lparr>onEnter = None,
      handling =
        [''seek'' \<mapsto> (\<lambda>state message. ([], case message of Seek t \<Rightarrow> Playing t | Empty \<Rightarrow> state)),
         ''pause'' \<mapsto> (\<lambda>state message. ([], Paused (currentTime state)))]\<rparr>"

text \<open>The three behavior entries live at the addresses 10, 11 and 12.\<close>

definition videoPlayerEntries :: "ref \<Rightarrow> (VideoPlayerState, Payload) Behavior" where
  "videoPlayerEntries r =
     (if r = 10 then idleBehavior else if r = 11 then pausedBehavior else playingBehavior)"

definition videoPlayerBehaviors :: "string \<rightharpoonup> ref" where
  "videoPlayerBehaviors = [''idle'' \<mapsto> 10, ''paused'' \<mapsto> 11, ''playing'' \<mapsto> 12]"

definition videoPlayer :: "(VideoPlayerState, unit, Payload) FSMDescription" where
  "videoPlayer =
     \<lparr>states = videoPlayerStates, factory = (\<lambda>_. Idle), messages = videoPlayerMessages,
      behaviors = videoPlayerBehaviors, entries = videoPlayerEntries\<rparr>"

text \<open>A world with nothing in it yet.\<close>

definition world0 :: "(VideoPlayerState, Payload) world" where
  "world0 =
     \<lparr>instances = (\<lambda>_. \<lparr>inst_value = Idle, inst_hooks = None\<rparr>), next_instance = 0,
      observers = (\<lambda>_. InternalObserver_new), next_observer = 0,
      console = [], trace = [], deliveries = []\<rparr>"

text \<open>State predicates that overlap: a playing value is both \<^verbatim>\<open>timed\<close> and \<^verbatim>\<open>playing\<close>.\<close>

definition overlappingStates :: "VideoPlayerState StateMap" where
  "overlappingStates =
     [(''idle'', \<lparr>state_is = isIdle\<rparr>), (''timed'', \<lparr>state_is = (\<lambda>s. \<not> isIdle s)\<rparr>),
      (''playing'', \<lparr>state_is = isPlaying\<rparr>)]"

definition overlapping :: "(VideoPlayerState, unit, Payload) FSMDescription" where
  "overlapping =
     \<lparr>states = overlappingStates, factory = (\<lambda>_. Idle), messages = videoPlayerMessages,
      behaviors = [''idle'' \<mapsto> 10, ''timed'' \<mapsto> 11, ''playing'' \<mapsto> 12],
      entries = videoPlayerEntries\<rparr>"

text \<open>
  The same with \<^verbatim>\<open>playing\<close> declared under the name \<^verbatim>\<open>1\<close>, after \<^verbatim>\<open>timed\<close>: the name is an
  array index, which \<^verbatim>\<open>Object.keys\<close> lists first.
\<close>

definition indexedStates :: "VideoPlayerState StateMap" where
  "indexedStates =
     [(''idle'', \<lparr>state_is = isIdle\<rparr>), (''timed'', \<lparr>state_is = (\<lambda>s. \<not> isIdle s)\<rparr>),
      (''1'', \<lparr>state_is = isPlaying\<rparr>)]"

definition indexed :: "(VideoPlayerState, unit, Payload) FSMDescription" where
  "indexed =
     \<lparr>states = indexedStates, factory = (\<lambda>_. Idle), messages = videoPlayerMessages,
      behaviors = [''idle'' \<mapsto> 10, ''timed'' \<mapsto> 11, ''1'' \<mapsto> 12],
      entries = videoPlayerEntries\<rparr>"

text \<open>The video player without the state \<^verbatim>\<open>paused\<close>: a paused value resolves to no state.\<close>

definition unresolvedPlayer :: "(VideoPlayerState, unit, Payload) FSMDescription" where
  "unresolvedPlayer =
     videoPlayer\<lparr>states := [(''idle'', \<lparr>state_is = isIdle\<rparr>), (''playing'', \<lparr>state_is = isPlaying\<rparr>)]\<rparr>"

definition playingWorld :: "(VideoPlayerState, Payload) world" where
  "playingWorld = world0\<lparr>instances := (\<lambda>_. \<lparr>inst_value = Playing 3, inst_hooks = None\<rparr>)\<rparr>"

text \<open>A behavior map for two of the three declared states.\<close>

definition partialBehaviors :: "string \<rightharpoonup> ref" where
  "partialBehaviors = [''idle'' \<mapsto> 10, ''playing'' \<mapsto> 12]"

definition pausedWorld :: "(VideoPlayerState, Payload) world" where
  "pausedWorld = world0\<lparr>instances := (\<lambda>_. \<lparr>inst_value = Paused 3, inst_hooks = None\<rparr>)\<rparr>"

text \<open>
  The video player with the state of the paused values declared under the name
  \<^verbatim>\<open>constructor\<close>, which every object inherits, and the behavior map for the two other
  states.
\<close>

definition constructorStates :: "VideoPlayerState StateMap" where
  "constructorStates =
     [(''idle'', \<lparr>state_is = isIdle\<rparr>), (''constructor'', \<lparr>state_is = isPaused\<rparr>),
      (''playing'', \<lparr>state_is = isPlaying\<rparr>)]"

definition constructorSkeleton :: "(VideoPlayerState, unit) FSMMessagesInitialized" where
  "constructorSkeleton =
     FSMWithStatesInitialized_messages
       (withInitialState (FSMTyped_states constructorStates) (\<lambda>_. Idle)) videoPlayerMessages"

definition constructorPlayer :: "(VideoPlayerState, unit, Payload) FSMDescription" where
  "constructorPlayer = videoPlayer\<lparr>states := constructorStates, behaviors := partialBehaviors\<rparr>"

text \<open>
  The video player with a fifth message under the name \<^verbatim>\<open>valueOf\<close>, which no state handles,
  and the video player with a second name, \<^verbatim>\<open>start\<close>, for the descriptor of \<^verbatim>\<open>play\<close>, declared
  before it.
\<close>

definition valueOfPlayer :: "(VideoPlayerState, unit, Payload) FSMDescription" where
  "valueOfPlayer =
     videoPlayer\<lparr>messages := videoPlayerMessages @ [(''valueOf'', \<lparr>message_id = 5\<rparr>)]\<rparr>"

definition sharedPlayer :: "(VideoPlayerState, unit, Payload) FSMDescription" where
  "sharedPlayer =
     videoPlayer\<lparr>messages := (''start'', \<lparr>message_id = 1\<rparr>) # videoPlayerMessages\<rparr>"

subsection \<open>A video player whose \<open>onEnter\<close> sends\<close>

text \<open>
  Every state has an \<open>onEnter\<close> that reports itself and returns an \<open>onExit\<close> hook that
  reports itself; on entering \<^verbatim>\<open>playing\<close>, \<open>onEnter\<close> also calls \<^verbatim>\<open>self.send.pause({})\<close>
  before it returns its hooks.
\<close>

definition idleHooks :: "(VideoPlayerState, Payload) Hooks" where
  "idleHooks = \<lparr>onUpdate = None, onExit = Some (\<lambda>state. [Emit ''idle.exit''])\<rparr>"

definition playingHooks :: "(VideoPlayerState, Payload) Hooks" where
  "playingHooks = \<lparr>onUpdate = None, onExit = Some (\<lambda>state. [Emit ''playing.exit''])\<rparr>"

definition pausedHooks :: "(VideoPlayerState, Payload) Hooks" where
  "pausedHooks = \<lparr>onUpdate = None, onExit = Some (\<lambda>state. [Emit ''paused.exit''])\<rparr>"

definition nestedEntries :: "ref \<Rightarrow> (VideoPlayerState, Payload) Behavior" where
  "nestedEntries r =
     (if r = 20 then
        \<lparr>onEnter = Some (\<lambda>state. ([Emit ''idle.enter''], Some idleHooks)),
         handling = [''play'' \<mapsto> (\<lambda>state message. ([], Playing 0))]\<rparr>
      else if r = 21 then
        \<lparr>onEnter = Some (\<lambda>state. ([Emit ''paused.enter''], Some pausedHooks)),
         handling = [''play'' \<mapsto> (\<lambda>state message. ([], Playing 0))]\<rparr>
      else
        \<lparr>onEnter = Some (\<lambda>state. ([Emit ''playing.enter'', SelfSend ''pause'' Empty],
                                   Some playingHooks)),
         handling = [''pause'' \<mapsto> (\<lambda>state message. ([], Paused (currentTime state)))]\<rparr>)"

definition nestedPlayer :: "(VideoPlayerState, unit, Payload) FSMDescription" where
  "nestedPlayer =
     \<lparr>states = videoPlayerStates, factory = (\<lambda>_. Idle), messages = videoPlayerMessages,
      behaviors = [''idle'' \<mapsto> 20, ''paused'' \<mapsto> 21, ''playing'' \<mapsto> 22],
      entries = nestedEntries\<rparr>"

subsection \<open>A video player whose transition function sends\<close>

text \<open>
  The states are \<^verbatim>\<open>idle\<close> and \<^verbatim>\<open>playing\<close>; a paused value resolves to no state. In \<^verbatim>\<open>idle\<close>,
  the transition function for \<^verbatim>\<open>stop\<close> reports itself and returns a paused value, the one
  for \<^verbatim>\<open>pause\<close> calls \<^verbatim>\<open>self.send.play({})\<close> and then returns a paused value, and the one for
  \<^verbatim>\<open>seek\<close> calls \<^verbatim>\<open>self.send.play({})\<close> and then returns the idle value.
\<close>

definition sendingEntries :: "ref \<Rightarrow> (VideoPlayerState, Payload) Behavior" where
  "sendingEntries r =
     (if r = 40 then
        \<lparr>onEnter = None,
         handling = [''play'' \<mapsto> (\<lambda>state message. ([], Playing 9)),
                     ''stop'' \<mapsto> (\<lambda>state message. ([Emit ''stopping''], Paused 1)),
                     ''pause'' \<mapsto> (\<lambda>state message. ([SelfSend ''play'' Empty], Paused 0)),
                     ''seek'' \<mapsto> (\<lambda>state message. ([SelfSend ''play'' Empty], Idle))]\<rparr>
      else
        \<lparr>onEnter = Some (\<lambda>state. ([Emit ''playing.enter''], Some playingHooks)),
         handling = Map.empty\<rparr>)"

definition sendingPlayer :: "(VideoPlayerState, unit, Payload) FSMDescription" where
  "sendingPlayer =
     \<lparr>states = [(''idle'', \<lparr>state_is = isIdle\<rparr>), (''playing'', \<lparr>state_is = isPlaying\<rparr>)],
      factory = (\<lambda>_. Idle), messages = videoPlayerMessages,
      behaviors = [''idle'' \<mapsto> 40, ''playing'' \<mapsto> 41],
      entries = sendingEntries\<rparr>"

text \<open>The world a creation leaves, thrown or not.\<close>

fun created_world :: "(error \<times> ('v, 'p) world) + ('a \<times> ('v, 'p) world) \<Rightarrow> ('v, 'p) world" where
  "created_world (Inl (e, w)) = w"
| "created_world (Inr (this, w)) = w"

text \<open>The same player, observable, with one listener attached by the hook.\<close>

definition nestedObservable ::
  "(VideoPlayerState, unit, Payload) FSMDescriptionWithObservable" where
  "nestedObservable = observable nestedPlayer (\<lambda>observer. [''listener''])"

subsection \<open>Observation through the adapter\<close>

text \<open>
  From \<open>w\<close> to \<open>w'\<close> no observer has changed, and the calls of listeners made in between
  all went to listeners that follow the observer \<open>ob\<close>.
\<close>

definition delivers_only_to :: "ref \<Rightarrow> ('v, 'p) world \<Rightarrow> ('v, 'p) world \<Rightarrow> bool" where
  "delivers_only_to ob w w' \<longleftrightarrow>
     observers w' = observers w \<and>
     (\<exists>ds. deliveries w' = deliveries w @ ds \<and>
           list_all (\<lambda>x. fst x \<in> snd ` set (followers (observers w ob))) ds)"

text \<open>
  An observable video player: the hook attaches one listener of its own to the observer
  it is given.
\<close>

definition videoPlayerObservable ::
  "(VideoPlayerState, unit, Payload) FSMDescriptionWithObservable" where
  "videoPlayerObservable =
     observable videoPlayer
       (\<lambda>observer. [if observer = 0 then ''subject of the first'' else ''subject of another''])"

subsection \<open>Residency, in the words of the specification\<close>

text \<open>
  A commit is a committed value together with the behavior entry it resolves to (what
  \<^verbatim>\<open>behaviors[stateKey]\<close> gives for its state name). The
  hooks of a residency are the ones its \<open>onEnter\<close> returns, none if there is no \<open>onEnter\<close>
  or it returns nothing.
\<close>

fun hooks_of :: "('v, 'p) Hooks option \<Rightarrow> ('v, 'p) Hooks" where
  "hooks_of None = emptyHooks"
| "hooks_of (Some h) = h"

definition entered_effects ::
  "('v, 'i, 'p) FSMDescription \<Rightarrow> ref property \<times> 'v \<Rightarrow> string list" where
  "entered_effects d c =
     (case behavior_onEnter d (fst c) of
        None \<Rightarrow> []
      | Some enter \<Rightarrow> effects (fst (enter (snd c))))"

definition entered_hooks ::
  "('v, 'i, 'p) FSMDescription \<Rightarrow> ref property \<times> 'v \<Rightarrow> ('v, 'p) Hooks" where
  "entered_hooks d c =
     (case behavior_onEnter d (fst c) of
        None \<Rightarrow> emptyHooks
      | Some enter \<Rightarrow> hooks_of (snd (enter (snd c))))"

definition update_effects :: "('v, 'p) Hooks \<Rightarrow> 'v \<Rightarrow> 'v \<Rightarrow> string list" where
  "update_effects h v v' = (case onUpdate h of None \<Rightarrow> [] | Some f \<Rightarrow> effects (f v v'))"

definition exit_effects :: "('v, 'p) Hooks \<Rightarrow> 'v \<Rightarrow> string list" where
  "exit_effects h v = (case onExit h of None \<Rightarrow> [] | Some f \<Rightarrow> effects (f v))"

text \<open>The maximal contiguous runs of commits that resolve to the same behavior entry.\<close>

function runs :: "(ref property \<times> 'v) list \<Rightarrow> (ref property \<times> 'v) list list" where
  "runs [] = []"
| "runs (c # cs) =
     (c # takeWhile (\<lambda>c'. fst c' = fst c) cs) # runs (dropWhile (\<lambda>c'. fst c' = fst c) cs)"
  by pat_completeness auto
termination
  by (relation "measure length") (auto simp: length_dropWhile_le less_Suc_eq_le)

text \<open>\<open>onUpdate\<close> for every commit of a run after the first, with the value before.\<close>

fun updates :: "('v, 'p) Hooks \<Rightarrow> 'v \<Rightarrow> 'v list \<Rightarrow> string list" where
  "updates h v [] = []"
| "updates h v (v' # vs) = update_effects h v v' @ updates h v' vs"

text \<open>
  What one run makes the hooks do: \<open>onEnter\<close> once, on its first value; \<open>onUpdate\<close> on every
  later commit; \<open>onExit\<close> once, on its last value, if the run has ended.
\<close>

fun run_effects ::
  "('v, 'i, 'p) FSMDescription \<Rightarrow> bool \<Rightarrow> (ref property \<times> 'v) list \<Rightarrow> string list" where
  "run_effects d ended [] = []"
| "run_effects d ended (c # cs) =
     entered_effects d c @
     updates (entered_hooks d c) (snd c) (map snd cs) @
     (if ended then exit_effects (entered_hooks d c) (last (snd c # map snd cs)) else [])"

text \<open>Run after run; every run but the last has ended.\<close>

fun residency ::
  "('v, 'i, 'p) FSMDescription \<Rightarrow> (ref property \<times> 'v) list list \<Rightarrow> string list" where
  "residency d [] = []"
| "residency d [run] = run_effects d False run"
| "residency d (run # next_run # rest) =
     run_effects d True run @ residency d (next_run # rest)"

definition residency_trace ::
  "('v, 'i, 'p) FSMDescription \<Rightarrow> (ref property \<times> 'v) list \<Rightarrow> string list" where
  "residency_trace d cs = residency d (runs cs)"

text \<open>
  The commits of a sequence of sends, by the steps 1 to 7 of the dispatcher: the handler
  of the current state for the message, if any, gives the next value, which is committed
  with the entry it resolves to.
\<close>

definition handler_for ::
  "('v, 'i, 'p) FSMDescription \<Rightarrow> 'v \<Rightarrow> string \<Rightarrow> ('v, 'p) Handler option" where
  "handler_for d v key =
     (case (map_of (messages d) key, findStateBehavior d v) of
        (Some m, Own r) \<Rightarrow>
          (case reverseMessageMap d (message_id m) of
             None \<Rightarrow> None
           | Some messageKey \<Rightarrow>
               (case messageTransition (entries d r) messageKey of
                  Own t \<Rightarrow> Some t
                | _ \<Rightarrow> None))
      | _ \<Rightarrow> None)"

fun commits ::
  "('v, 'i, 'p) FSMDescription \<Rightarrow> 'v \<Rightarrow> (string \<times> 'p) list \<Rightarrow> (ref property \<times> 'v) list" where
  "commits d v [] = []"
| "commits d v ((key, payload) # rest) =
     (case handler_for d v key of
        None \<Rightarrow> commits d v rest
      | Some t \<Rightarrow>
          (if findStateBehavior d (snd (t v payload)) = Undefined then []
           else (findStateBehavior d (snd (t v payload)), snd (t v payload)) #
                commits d (snd (t v payload)) rest))"

text \<open>
  Closures that never call \<^verbatim>\<open>send\<close>: the hooks only have effects on the outside, the
  transition functions are pure.
\<close>

definition non_reentrant_hooks :: "('v, 'p) Hooks \<Rightarrow> bool" where
  "non_reentrant_hooks h \<longleftrightarrow>
     (\<forall>f v v'. onUpdate h = Some f \<longrightarrow> list_all is_Emit (f v v')) \<and>
     (\<forall>f v. onExit h = Some f \<longrightarrow> list_all is_Emit (f v))"

definition non_reentrant :: "('v, 'i, 'p) FSMDescription \<Rightarrow> bool" where
  "non_reentrant d \<longleftrightarrow>
     (\<forall>r key t v p. handling (entries d r) key = Some t \<longrightarrow> fst (t v p) = []) \<and>
     (\<forall>r enter v. onEnter (entries d r) = Some enter \<longrightarrow>
        list_all is_Emit (fst (enter v)) \<and> non_reentrant_hooks (hooks_of (snd (enter v))))"

text \<open>
  The same effects commit by commit, from the hooks \<open>h\<close> of the current residency and
  its last commit \<open>c\<close>.
\<close>

fun follow ::
  "('v, 'i, 'p) FSMDescription \<Rightarrow> ('v, 'p) Hooks \<Rightarrow> ref property \<times> 'v \<Rightarrow>
     (ref property \<times> 'v) list \<Rightarrow> string list" where
  "follow d h c [] = []"
| "follow d h c (c' # cs) =
     (if fst c' = fst c then update_effects h (snd c) (snd c') @ follow d h c' cs
      else exit_effects h (snd c) @ entered_effects d c' @ follow d (entered_hooks d c') c' cs)"

text \<open>
  The video player of the lifecycle tests: \<^verbatim>\<open>playing\<close> has an \<open>onEnter\<close> that reports itself
  and returns hooks that report themselves.
\<close>

definition lifecycleHooks :: "(VideoPlayerState, Payload) Hooks" where
  "lifecycleHooks =
     \<lparr>onUpdate = Some (\<lambda>previous current. [Emit ''update'']),
      onExit = Some (\<lambda>state. [Emit ''exit''])\<rparr>"

definition lifecycleEntries :: "ref \<Rightarrow> (VideoPlayerState, Payload) Behavior" where
  "lifecycleEntries r =
     (if r = 30 then
        \<lparr>onEnter = None, handling = [''play'' \<mapsto> (\<lambda>state message. ([], Playing 0))]\<rparr>
      else if r = 31 then
        \<lparr>onEnter = None, handling = Map.empty\<rparr>
      else
        \<lparr>onEnter = Some (\<lambda>state. ([Emit ''enter''], Some lifecycleHooks)),
         handling = [''play'' \<mapsto> (\<lambda>state message. ([], Playing 0)),
                     ''stop'' \<mapsto> (\<lambda>state message. ([], Idle))]\<rparr>)"

definition lifecyclePlayer :: "(VideoPlayerState, unit, Payload) FSMDescription" where
  "lifecyclePlayer =
     \<lparr>states = videoPlayerStates, factory = (\<lambda>_. Idle), messages = videoPlayerMessages,
      behaviors = [''idle'' \<mapsto> 30, ''paused'' \<mapsto> 31, ''playing'' \<mapsto> 32],
      entries = lifecycleEntries\<rparr>"

text \<open>The sends of the test of repeated lifecycles.\<close>

definition lifecycleSends :: "(string \<times> Payload) list" where
  "lifecycleSends =
     [(''play'', Empty), (''play'', Empty), (''play'', Empty), (''stop'', Empty),
      (''play'', Empty), (''play'', Empty), (''stop'', Empty)]"

text \<open>Two observable video players, created one after the other in the empty world.\<close>

definition observedWorld1 :: "(VideoPlayerState, Payload) world" where
  "observedWorld1 = created_world (observable_create 0 videoPlayerObservable () world0)"

definition observedWorld2 :: "(VideoPlayerState, Payload) world" where
  "observedWorld2 = created_world (observable_create 0 videoPlayerObservable () observedWorld1)"

text \<open>The lifecycle player created in the empty world, and the world after the sends.\<close>

definition lifecycleWorld0 :: "(VideoPlayerState, Payload) world" where
  "lifecycleWorld0 = created_world (create 0 lifecyclePlayer () world0)"

definition lifecycleWorld :: "(VideoPlayerState, Payload) world" where
  "lifecycleWorld =
     world_of (sends (Suc 0) lifecyclePlayer (instance_accessors 0) lifecycleSends lifecycleWorld0)"

text \<open>
  The player whose \<open>onEnter\<close> sends, created in the empty world, and the world after
  \<^verbatim>\<open>play\<close> is sent with a stack of two frames; the same for the observable one.
\<close>

definition nestedWorld0 :: "(VideoPlayerState, Payload) world" where
  "nestedWorld0 = created_world (create 0 nestedPlayer () world0)"

definition nestedWorld :: "(VideoPlayerState, Payload) world" where
  "nestedWorld =
     world_of (send (Suc (Suc 0)) nestedPlayer (instance_accessors 0) ''play'' Empty nestedWorld0)"

definition nestedObservedWorld0 :: "(VideoPlayerState, Payload) world" where
  "nestedObservedWorld0 = created_world (observable_create 0 nestedObservable () world0)"

definition nestedObservedWorld :: "(VideoPlayerState, Payload) world" where
  "nestedObservedWorld =
     world_of (send (Suc (Suc 0)) nestedPlayer (observable_dispatch 0 (instance_accessors 0))
       ''play'' Empty nestedObservedWorld0)"

text \<open>
  The player whose transition function sends, created in the empty world, and the world
  after \<^verbatim>\<open>pause\<close> is sent with a stack of two frames.
\<close>

definition sendingWorld0 :: "(VideoPlayerState, Payload) world" where
  "sendingWorld0 = created_world (create 0 sendingPlayer () world0)"

definition sendingWorld :: "(VideoPlayerState, Payload) world" where
  "sendingWorld =
     world_of (send (Suc (Suc 0)) sendingPlayer (instance_accessors 0) ''pause'' Empty sendingWorld0)"

text \<open>The same player after \<^verbatim>\<open>seek\<close> is sent instead.\<close>

definition sentWorld :: "(VideoPlayerState, Payload) world" where
  "sentWorld =
     world_of (send (Suc (Suc 0)) sendingPlayer (instance_accessors 0) ''seek'' Empty sendingWorld0)"

section \<open>Properties\<close>

subsection \<open>Auxiliary facts\<close>

lemma instance_accessors_simps:
  "stateGet (instance_accessors a) w = inst_value (instances w a)"
  "hookGet (instance_accessors a) w = inst_hooks (instances w a)"
  "stateSet (instance_accessors a) v w =
     w\<lparr>instances := (instances w)(a := (instances w a)\<lparr>inst_value := v\<rparr>)\<rparr>"
  "hookSet (instance_accessors a) h w =
     w\<lparr>instances := (instances w)(a := (instances w a)\<lparr>inst_hooks := h\<rparr>)\<rparr>"
  by (simp_all add: instance_accessors_def)

lemma Get_simps:
  "object key = Some x \<Longrightarrow> Get object key = Own x"
  "object key = None \<Longrightarrow> key \<notin> set Object_prototype \<Longrightarrow> Get object key = Undefined"
  "object key = None \<Longrightarrow> key \<in> set Object_prototype \<Longrightarrow> Get object key = Inherited key"
  by (simp_all add: Get_def)

lemma Get_Own: "Get object key = Own x \<longleftrightarrow> object key = Some x"
  by (simp add: Get_def split: option.splits)

lemma Get_Undefined:
  "Get object key = Undefined \<longleftrightarrow> object key = None \<and> key \<notin> set Object_prototype"
  by (simp add: Get_def split: option.splits)

lemma set_Object_entries: "set (Object_entries object) = set object"
  by (auto simp: Object_entries_def)

lemma distinct_Object_entries: "distinct object \<Longrightarrow> distinct (Object_entries object)"
  by (auto simp: Object_entries_def)

lemma Object_entries_names:
  "list_all (\<lambda>e. array_index (fst e) = None) object \<Longrightarrow> Object_entries object = object"
  by (simp add: Object_entries_def list_all_iff filter_empty_conv filter_id_conv)

lemma array_index_no_digit: "digit c = None \<Longrightarrow> array_index (c # cs) = None"
  by (simp add: array_index_def)

lemma exec_passive:
  "list_all is_Emit body \<Longrightarrow> exec n d acc body w = Inr (w\<lparr>trace := trace w @ effects body\<rparr>)"
proof (induction body arbitrary: w)
  case Nil
  then show ?case by simp
next
  case (Cons s body)
  then show ?case by (cases s) simp_all
qed

lemma findStateKey_from_None:
  "findStateKey_from sm v = None \<longleftrightarrow> list_all (\<lambda>e. \<not> state_is (snd e) v) sm"
proof (induction sm)
  case Nil
  then show ?case by simp
next
  case (Cons e sm)
  obtain key st where e: "e = (key, st)" by (cases e)
  show ?case
    using Cons.IH by (simp add: e)
qed

lemma findStateKey_from_first:
  "list_all (\<lambda>e. \<not> state_is (snd e) v) earlier \<Longrightarrow> state_is st v \<Longrightarrow>
     findStateKey_from (earlier @ (key, st) # later) v = Some key"
proof (induction earlier)
  case Nil
  then show ?case by simp
next
  case (Cons e earlier)
  obtain key' st' where e: "e = (key', st')" by (cases e)
  from Cons show ?case by (simp add: e)
qed

lemma creates_ids:
  "map message_id (fst (creates n c)) = [c ..< c + n] \<and> snd (creates n c) = c + n"
proof (induction n arbitrary: c)
  case 0
  then show ?case by simp
next
  case (Suc n)
  from Suc[of "Suc c"] show ?case
    by (simp add: FSMMessage_create_def split_beta Let_def upt_rec[of c])
qed

lemma creates_length: "length (fst (creates n c)) = n"
  using creates_ids[of n c] by (metis length_map length_upt add_diff_cancel_left')

lemma creates_nth: "i < n \<Longrightarrow> message_id (fst (creates n c) ! i) = c + i"
proof -
  assume i: "i < n"
  have "message_id (fst (creates n c) ! i) = map message_id (fst (creates n c)) ! i"
    using i by (simp add: creates_length)
  also have "\<dots> = c + i" using i by (simp add: creates_ids)
  finally show ?thesis .
qed

lemma creates_prefix: "i < n \<Longrightarrow> fst (creates (n + k) c) ! i = fst (creates n c) ! i"
proof (induction n arbitrary: c i)
  case 0
  then show ?case by simp
next
  case (Suc n)
  show ?case
  proof (cases i)
    case 0
    then show ?thesis by (simp add: FSMMessage_create_def split_beta Let_def)
  next
    case (Suc i')
    with Suc.prems have "i' < n" by simp
    from Suc.IH[OF this, of "Suc c"] Suc show ?thesis
      by (simp add: FSMMessage_create_def split_beta Let_def)
  qed
qed

text \<open>
  The reverse map has a name for the identifier of every declared message; when no two
  declared messages have the same identifier, it is the name the message is declared
  under.
\<close>

lemma fold_reverse_other:
  "i \<notin> message_id ` snd ` set ms \<Longrightarrow>
     fold (\<lambda>(messageName, m) r. r(message_id m \<mapsto> messageName)) ms r0 i = r0 i"
  by (induction ms arbitrary: r0) (auto simp: split_beta)

lemma fold_reverse_defined:
  "r0 i \<noteq> None \<or> i \<in> message_id ` snd ` set ms \<Longrightarrow>
     fold (\<lambda>(messageName, m) r. r(message_id m \<mapsto> messageName)) ms r0 i \<noteq> None"
proof (induction ms arbitrary: r0)
  case Nil
  then show ?case by simp
next
  case (Cons e ms)
  obtain name m' where e: "e = (name, m')" by (cases e)
  have "(r0(message_id m' \<mapsto> name)) i \<noteq> None \<or> i \<in> message_id ` snd ` set ms"
    using Cons.prems e by auto
  then have "fold (\<lambda>(messageName, m) r. r(message_id m \<mapsto> messageName)) ms
      (r0(message_id m' \<mapsto> name)) i \<noteq> None"
    by (rule Cons.IH)
  then show ?case by (simp add: e del: fun_upd_apply)
qed

lemma fold_reverse_declared:
  "distinct (map (\<lambda>e. message_id (snd e)) ms) \<Longrightarrow> (key, m) \<in> set ms \<Longrightarrow>
     fold (\<lambda>(messageName, m) r. r(message_id m \<mapsto> messageName)) ms r0 (message_id m) = Some key"
proof (induction ms arbitrary: r0)
  case Nil
  then show ?case by simp
next
  case (Cons e ms)
  obtain name m' where e: "e = (name, m')" by (cases e)
  show ?case
  proof (cases "(key, m) \<in> set ms")
    case True
    moreover from Cons.prems(1) have "distinct (map (\<lambda>e. message_id (snd e)) ms)" by simp
    ultimately show ?thesis using Cons.IH e by simp
  next
    case False
    with Cons.prems(2) e have nm: "name = key" "m' = m" by simp_all
    from Cons.prems(1) e nm have "message_id m \<notin> message_id ` snd ` set ms" by (auto simp: image_iff)
    then have "fold (\<lambda>(messageName, m) r. r(message_id m \<mapsto> messageName)) ms
        (r0(message_id m \<mapsto> key)) (message_id m) = (r0(message_id m \<mapsto> key)) (message_id m)"
      by (rule fold_reverse_other)
    then show ?thesis using e nm by (simp add: fun_upd_same del: fun_upd_apply)
  qed
qed

lemma reverseMessageMap_defined:
  "map_of (messages d) key = Some m \<Longrightarrow> reverseMessageMap d (message_id m) \<noteq> None"
proof -
  assume "map_of (messages d) key = Some m"
  then have "(key, m) \<in> set (Object_entries (messages d))"
    by (simp add: set_Object_entries map_of_SomeD)
  then have "message_id m \<in> message_id ` snd ` set (Object_entries (messages d))" by force
  then show ?thesis unfolding reverseMessageMap_def by (intro fold_reverse_defined) simp
qed

lemma reverseMessageMap_declared:
  "distinct (map (\<lambda>e. message_id (snd e)) (messages d)) \<Longrightarrow> map_of (messages d) key = Some m \<Longrightarrow>
     reverseMessageMap d (message_id m) = Some key"
proof -
  assume d: "distinct (map (\<lambda>e. message_id (snd e)) (messages d))"
    and m: "map_of (messages d) key = Some m"
  from d have "distinct (messages d)" and "inj_on (\<lambda>e. message_id (snd e)) (set (messages d))"
    by (simp_all add: distinct_map)
  then have "distinct (map (\<lambda>e. message_id (snd e)) (Object_entries (messages d)))"
    by (simp add: distinct_map distinct_Object_entries set_Object_entries)
  moreover from m have "(key, m) \<in> set (Object_entries (messages d))"
    by (simp add: set_Object_entries map_of_SomeD)
  ultimately show ?thesis by (simp add: reverseMessageMap_def fold_reverse_declared)
qed

subsection \<open>The video player, evaluated\<close>

lemma videoPlayerMessages_eq:
  "videoPlayerMessages =
     [(''play'', \<lparr>message_id = 1\<rparr>), (''stop'', \<lparr>message_id = 2\<rparr>),
      (''pause'', \<lparr>message_id = 3\<rparr>), (''seek'', \<lparr>message_id = 4\<rparr>)]"
  by (simp add: videoPlayerMessages_def messageId_initial_def FSMMessage_create_def
        eval_nat_numeral)

lemma videoPlayer_fields:
  "states videoPlayer = videoPlayerStates"
  "factory videoPlayer = (\<lambda>_. Idle)"
  "messages videoPlayer = videoPlayerMessages"
  "behaviors videoPlayer = videoPlayerBehaviors"
  "entries videoPlayer = videoPlayerEntries"
  by (simp_all add: videoPlayer_def)

text \<open>No name of a state or a message of the video player is an array index.\<close>

lemma videoPlayer_Object_entries:
  "Object_entries videoPlayerStates = videoPlayerStates"
  "Object_entries videoPlayerMessages = videoPlayerMessages"
  by (simp_all add: Object_entries_names videoPlayerStates_def videoPlayerMessages_eq
        array_index_no_digit digit_def)

lemma videoPlayer_findStateKey:
  "findStateKey videoPlayer Idle = Some ''idle''"
  "findStateKey videoPlayer (Playing t) = Some ''playing''"
  "findStateKey videoPlayer (Paused t) = Some ''paused''"
  by (simp_all add: findStateKey_def videoPlayer_fields videoPlayer_Object_entries)
     (simp_all add: videoPlayerStates_def)

lemma videoPlayer_findStateBehavior:
  "findStateBehavior videoPlayer Idle = Own 10"
  "findStateBehavior videoPlayer (Playing t) = Own 12"
  "findStateBehavior videoPlayer (Paused t) = Own 11"
  by (simp_all add: findStateBehavior_def videoPlayer_findStateKey videoPlayer_fields
        videoPlayerBehaviors_def Get_simps)

lemma videoPlayer_reverseMessageMap:
  "reverseMessageMap videoPlayer =
     [1 \<mapsto> ''play'', 2 \<mapsto> ''stop'', 3 \<mapsto> ''pause'', 4 \<mapsto> ''seek'']"
  by (simp add: reverseMessageMap_def videoPlayer_fields videoPlayer_Object_entries)
     (simp add: videoPlayerMessages_eq)

lemma videoPlayer_messageTransition:
  "messageTransition (entries videoPlayer 10) ''play'' = Own (\<lambda>state message. ([], Playing 0))"
  "messageTransition (entries videoPlayer 11) ''play'' = Own (\<lambda>state message. ([], Playing 0))"
  "messageTransition (entries videoPlayer 12) ''seek'' =
     Own (\<lambda>state message. ([], case message of Seek t \<Rightarrow> Playing t | Empty \<Rightarrow> state))"
  "messageTransition (entries videoPlayer 12) ''pause'' =
     Own (\<lambda>state message. ([], Paused (currentTime state)))"
  by (simp_all add: messageTransition_def videoPlayer_fields videoPlayerEntries_def
        idleBehavior_def pausedBehavior_def playingBehavior_def Get_simps)

lemma videoPlayer_onEnter: "onEnter (entries videoPlayer r) = None"
  by (simp add: videoPlayer_fields videoPlayerEntries_def
        idleBehavior_def pausedBehavior_def playingBehavior_def)

lemmas videoPlayer_simps =
  videoPlayer_fields(2,3) videoPlayer_findStateKey videoPlayer_findStateBehavior
  videoPlayer_reverseMessageMap videoPlayer_messageTransition videoPlayer_onEnter
  send_def instance_accessors_simps videoPlayerMessages_eq

subsection \<open>State resolution\<close>

text \<open>
  C7, as the code has it. State resolution goes through the state names in the order of
  \<^verbatim>\<open>Object.keys\<close> and returns the first whose predicate accepts the value, whatever the
  predicates of later names accept: \<open>findStateKey\<close> returns that name and \<open>findStateBehavior\<close>
  what the behavior map gives for it. The dispatcher uses the behavior entry of that name:
  a \<open>send\<close> to an instance with that value runs the handler this entry has for the
  message, on the value and the payload, and, when the body of the handler has returned,
  resolves the value the handler returns and goes through the lifecycle from this entry.
  If no predicate accepts the value, both are undefined. The order of \<^verbatim>\<open>Object.keys\<close> is the
  order of declaration when no state name is an array index.
\<close>

theorem findStateKey_first_match:
  "(Object_entries (states d) = earlier @ (stateKey, st) # later \<and>
      list_all (\<lambda>e. \<not> state_is (snd e) v) earlier \<and> state_is st v
    \<longrightarrow> findStateKey d v = Some stateKey \<and>
        findStateBehavior d v = Get (behaviors d) stateKey \<and>
        (stateGet acc w = v \<and> behaviors d stateKey = Some r \<and>
           map_of (messages d) key = Some m \<and> reverseMessageMap d (message_id m) = Some mk \<and>
           handling (entries d r) mk = Some t
         \<longrightarrow> send (Suc n) d acc key payload w =
               (case exec n d acc (fst (t v payload)) w of
                  Inl e \<Rightarrow> Inl e
                | Inr w' \<Rightarrow>
                    if findStateBehavior d (snd (t v payload)) = Undefined then
                      Inl (no_state_error, log (Error_state (snd (t v payload)) m payload) w')
                    else
                      lifecycle n d acc v (snd (t v payload)) (Own r)
                        (findStateBehavior d (snd (t v payload)))
                        (stateSet acc (snd (t v payload)) w')))) \<and>
   (list_all (\<lambda>e. \<not> state_is (snd e) v) (Object_entries (states d))
    \<longrightarrow> findStateKey d v = None \<and> findStateBehavior d v = Undefined) \<and>
   (list_all (\<lambda>e. array_index (fst e) = None) (states d)
    \<longrightarrow> Object_entries (states d) = states d)"
proof (intro conjI impI)
  assume h: "Object_entries (states d) = earlier @ (stateKey, st) # later \<and>
      list_all (\<lambda>e. \<not> state_is (snd e) v) earlier \<and> state_is st v"
  then show k: "findStateKey d v = Some stateKey"
    by (simp add: findStateKey_def findStateKey_from_first)
  then show b: "findStateBehavior d v = Get (behaviors d) stateKey"
    by (simp add: findStateBehavior_def)
  assume s: "stateGet acc w = v \<and> behaviors d stateKey = Some r \<and>
           map_of (messages d) key = Some m \<and> reverseMessageMap d (message_id m) = Some mk \<and>
           handling (entries d r) mk = Some t"
  then have "findStateBehavior d (stateGet acc w) = Own r"
    and "messageTransition (entries d r) mk = Own t"
    using b by (simp_all add: Get_simps messageTransition_def)
  with s k show "send (Suc n) d acc key payload w =
               (case exec n d acc (fst (t v payload)) w of
                  Inl e \<Rightarrow> Inl e
                | Inr w' \<Rightarrow>
                    if findStateBehavior d (snd (t v payload)) = Undefined then
                      Inl (no_state_error, log (Error_state (snd (t v payload)) m payload) w')
                    else
                      lifecycle n d acc v (snd (t v payload)) (Own r)
                        (findStateBehavior d (snd (t v payload)))
                        (stateSet acc (snd (t v payload)) w'))"
    by (simp add: send_def Let_def del: lifecycle.simps split: sum.splits)
next
  assume "list_all (\<lambda>e. \<not> state_is (snd e) v) (Object_entries (states d))"
  then show k: "findStateKey d v = None"
    by (simp add: findStateKey_def findStateKey_from_None)
  then show "findStateBehavior d v = Undefined"
    by (simp add: findStateBehavior_def)
next
  assume "list_all (\<lambda>e. array_index (fst e) = None) (states d)"
  then show "Object_entries (states d) = states d" by (rule Object_entries_names)
qed

text \<open>
  With the overlapping predicates, a playing value resolves to \<^verbatim>\<open>timed\<close>, which is declared
  before \<^verbatim>\<open>playing\<close>, and \<^verbatim>\<open>play\<close> is handled by the entry of \<^verbatim>\<open>timed\<close> (the entry of \<^verbatim>\<open>playing\<close>
  has no handler for it); with \<^verbatim>\<open>idle\<close> as the only state the value is unresolved.
\<close>

lemma overlapping_fields:
  "states overlapping = overlappingStates"
  "messages overlapping = videoPlayerMessages"
  "behaviors overlapping = [''idle'' \<mapsto> 10, ''timed'' \<mapsto> 11, ''playing'' \<mapsto> 12]"
  "entries overlapping = videoPlayerEntries"
  "reverseMessageMap overlapping = reverseMessageMap videoPlayer"
  "Object_entries overlappingStates = overlappingStates"
  by (simp_all add: overlapping_def reverseMessageMap_def videoPlayer_fields
        Object_entries_names overlappingStates_def array_index_no_digit digit_def)

theorem findStateKey_first_match_witness:
  "Object_entries (states overlapping) =
     [(''idle'', \<lparr>state_is = isIdle\<rparr>)] @ (''timed'', \<lparr>state_is = (\<lambda>s. \<not> isIdle s)\<rparr>) #
     [(''playing'', \<lparr>state_is = isPlaying\<rparr>)] \<and>
   \<not> isIdle (Playing 3) \<and> isPlaying (Playing 3) \<and>
   findStateKey overlapping (Playing 3) = Some ''timed'' \<and>
   findStateBehavior overlapping (Playing 3) = Own 11 \<and>
   stateGet (instance_accessors 0) playingWorld = Playing 3 \<and>
   behaviors overlapping ''timed'' = Some 11 \<and>
   map_of (messages overlapping) ''play'' = Some \<lparr>message_id = 1\<rparr> \<and>
   reverseMessageMap overlapping (message_id \<lparr>message_id = 1\<rparr>) = Some ''play'' \<and>
   handling (entries overlapping 11) ''play'' = Some (\<lambda>state message. ([], Playing 0)) \<and>
   handling (entries overlapping 12) ''play'' = None \<and>
   send (Suc 0) overlapping (instance_accessors 0) ''play'' Empty playingWorld =
     Inr (playingWorld\<lparr>instances := (instances playingWorld)
            (0 := \<lparr>inst_value = Playing 0, inst_hooks = None\<rparr>)\<rparr>) \<and>
   Object_entries (states (overlapping\<lparr>states := [(''idle'', \<lparr>state_is = isIdle\<rparr>)]\<rparr>)) =
     [(''idle'', \<lparr>state_is = isIdle\<rparr>)] \<and>
   findStateKey (overlapping\<lparr>states := [(''idle'', \<lparr>state_is = isIdle\<rparr>)]\<rparr>) (Playing 3) = None \<and>
   findStateBehavior (overlapping\<lparr>states := [(''idle'', \<lparr>state_is = isIdle\<rparr>)]\<rparr>) (Playing 3) =
     Undefined \<and>
   array_index ''idle'' = None \<and> array_index ''timed'' = None \<and> array_index ''playing'' = None \<and>
   Object_entries (states overlapping) = states overlapping"
  using findStateKey_first_match[where d = overlapping
      and earlier = "[(''idle'', \<lparr>state_is = isIdle\<rparr>)]" and stateKey = "''timed''"
      and st = "\<lparr>state_is = (\<lambda>s. \<not> isIdle s)\<rparr>"
      and later = "[(''playing'', \<lparr>state_is = isPlaying\<rparr>)]" and v = "Playing 3"
      and acc = "instance_accessors 0" and w = playingWorld and r = 11 and key = "''play''"
      and m = "\<lparr>message_id = 1\<rparr>" and mk = "''play''"
      and t = "\<lambda>state message. ([], Playing 0)" and n = 0 and payload = Empty]
    findStateKey_first_match[where d = "overlapping\<lparr>states := [(''idle'', \<lparr>state_is = isIdle\<rparr>)]\<rparr>"
      and v = "Playing 3"]
  by (simp add: overlapping_fields overlappingStates_def videoPlayer_reverseMessageMap
        videoPlayerMessages_eq videoPlayerEntries_def pausedBehavior_def playingBehavior_def
        instance_accessors_simps playingWorld_def world0_def Get_simps
        findStateKey_def findStateBehavior_def
        Object_entries_names array_index_no_digit digit_def)

text \<open>
  Declaration order is not the order of resolution when a state name is an array index.
  The states are declared in the order \<^verbatim>\<open>idle\<close>, \<^verbatim>\<open>timed\<close>, \<^verbatim>\<open>1\<close>, and a playing value is
  accepted by the predicates of \<^verbatim>\<open>timed\<close> and of \<^verbatim>\<open>1\<close>: it resolves to \<^verbatim>\<open>1\<close>, declared later,
  and \<^verbatim>\<open>pause\<close>, which the entry of \<^verbatim>\<open>timed\<close> does not handle, is handled by the entry of
  \<^verbatim>\<open>1\<close>.
\<close>

lemma indexed_fields:
  "states indexed = indexedStates"
  "messages indexed = videoPlayerMessages"
  "behaviors indexed = [''idle'' \<mapsto> 10, ''timed'' \<mapsto> 11, ''1'' \<mapsto> 12]"
  "entries indexed = videoPlayerEntries"
  "reverseMessageMap indexed = reverseMessageMap videoPlayer"
  by (simp_all add: indexed_def reverseMessageMap_def videoPlayer_fields)

lemma indexed_Object_entries:
  "Object_entries indexedStates =
     [(''1'', \<lparr>state_is = isPlaying\<rparr>), (''idle'', \<lparr>state_is = isIdle\<rparr>),
      (''timed'', \<lparr>state_is = (\<lambda>s. \<not> isIdle s)\<rparr>)]"
  by (simp add: Object_entries_def indexedStates_def array_index_def digit_def)

lemma indexed_findStateKey:
  "findStateKey indexed Idle = Some ''idle''"
  "findStateKey indexed (Playing t) = Some ''1''"
  "findStateKey indexed (Paused t) = Some ''timed''"
  "findStateBehavior indexed Idle = Own 10"
  "findStateBehavior indexed (Playing t) = Own 12"
  "findStateBehavior indexed (Paused t) = Own 11"
  by (simp_all add: findStateBehavior_def findStateKey_def indexed_fields
        indexed_Object_entries Get_simps)

theorem findStateKey_declaration_counterexample:
  "states indexed =
     [(''idle'', \<lparr>state_is = isIdle\<rparr>), (''timed'', \<lparr>state_is = (\<lambda>s. \<not> isIdle s)\<rparr>),
      (''1'', \<lparr>state_is = isPlaying\<rparr>)] \<and>
   \<not> isIdle (Playing 3) \<and> isPlaying (Playing 3) \<and>
   findStateKey indexed (Playing 3) = Some ''1'' \<and>
   findStateBehavior indexed (Playing 3) = Own 12 \<and>
   behaviors indexed ''timed'' = Some 11 \<and>
   behaviors indexed ''1'' = Some 12 \<and>
   messageTransition (entries indexed 11) ''pause'' = Undefined \<and>
   stateGet (instance_accessors 0) playingWorld = Playing 3 \<and>
   send (Suc 0) indexed (instance_accessors 0) ''pause'' Empty playingWorld =
     Inr (playingWorld\<lparr>instances := (instances playingWorld)
            (0 := \<lparr>inst_value = Paused 3, inst_hooks = None\<rparr>)\<rparr>)"
  by (simp add: indexed_fields indexed_findStateKey
        videoPlayer_reverseMessageMap videoPlayerMessages_eq videoPlayerEntries_def
        pausedBehavior_def playingBehavior_def messageTransition_def Get_def
        Object_prototype_def send_def instance_accessors_simps playingWorld_def world0_def
        indexedStates_def)

subsection \<open>Message identifiers\<close>

text \<open>
  C9. Any two distinct calls of \<open>FSMMessage.create\<close> (the calls number \<open>i\<close> and \<open>j\<close> of \<open>n\<close>
  successive calls, from any counter value) return descriptors with distinct identifiers;
  invoking a descriptor on a payload gives a message instance with exactly the descriptor's
  identifier, and the payload; later calls of \<open>create\<close> leave a descriptor as it was.
  Identifiers are natural numbers here: the counter of the program is a double, exact up
  to \<open>2^53\<close>.
\<close>

theorem FSMMessage_create_ids:
  "(i < j \<and> j < n \<longrightarrow>
      message_id (fst (creates n c) ! i) \<noteq> message_id (fst (creates n c) ! j)) \<and>
   (i < n \<longrightarrow>
      instance_id (invoke (fst (creates n c) ! i) p) = message_id (fst (creates n c) ! i) \<and>
      instance_value (invoke (fst (creates n c) ! i) p) = p \<and>
      fst (creates (n + k) c) ! i = fst (creates n c) ! i)"
  by (simp add: creates_nth creates_prefix invoke_def)

theorem FSMMessage_create_ids_witness:
  "(0::nat) < 1 \<and> (1::nat) < 2 \<and>
   message_id (fst (creates 2 messageId_initial) ! 0) = 1 \<and>
   message_id (fst (creates 2 messageId_initial) ! 1) = 2 \<and>
   message_id (fst (creates 2 messageId_initial) ! 0) \<noteq>
     message_id (fst (creates 2 messageId_initial) ! 1) \<and>
   instance_id (invoke (fst (creates 2 messageId_initial) ! 0) (Seek 7)) = 1 \<and>
   fst (creates (2 + 1) messageId_initial) ! 0 = fst (creates 2 messageId_initial) ! 0"
  using FSMMessage_create_ids[of 0 1 2 messageId_initial "Seek 7" 1]
  by (simp add: messageId_initial_def FSMMessage_create_def eval_nat_numeral)

subsection \<open>Unhandled messages\<close>

text \<open>
  C4, as the code has it. The handler is looked up under the name the reverse map gives
  for the identifier of the message sent, which is the name used for the send when no two
  declared messages share an identifier. When the behavior entry of the current state has
  no handler of its own under that name and no wildcard handler, and the name is not one
  that every object inherits, \<open>send\<close> returns normally, and the world it leaves is the
  world before but for the console: the value and the hooks of every instance are
  unchanged, nothing is added to the trace of the closures' effects or to the deliveries
  (no closure is called), and the console has received two warnings, the text that
  carries the state name and the message name and then a dump of the message name and the
  state value.
\<close>

theorem send_unhandled:
  assumes "map_of (messages d) key = Some m"
    and "findStateKey d (stateGet acc w) = Some sk"
    and "behaviors d sk = Some r"
    and "reverseMessageMap d (message_id m) = Some mk"
    and "handling (entries d r) mk = None"
    and "mk \<notin> set Object_prototype"
    and "handling (entries d r) ''_'' = None"
  shows "send (Suc n) d acc key payload w =
           Inr (w\<lparr>console := console w @
                  [Warn_text (noTransition sk mk), Warn_dump mk (stateGet acc w)]\<rparr>) \<and>
         (distinct (map (\<lambda>e. message_id (snd e)) (messages d)) \<longrightarrow> mk = key)"
proof -
  have "''_'' \<notin> set Object_prototype" by (simp add: Object_prototype_def)
  with assms have "messageTransition (entries d r) mk = Undefined"
    by (simp add: messageTransition_def Get_simps)
  moreover from assms have "findStateBehavior d (stateGet acc w) = Own r"
    by (simp add: findStateBehavior_def Get_simps)
  ultimately show ?thesis
    using assms reverseMessageMap_declared[of d key m]
    by (auto simp add: send_def log_def)
qed

theorem send_unhandled_witness:
  "map_of (messages videoPlayer) ''stop'' = Some \<lparr>message_id = 2\<rparr> \<and>
   findStateKey videoPlayer (stateGet (instance_accessors 0) world0) = Some ''idle'' \<and>
   behaviors videoPlayer ''idle'' = Some 10 \<and>
   reverseMessageMap videoPlayer (message_id \<lparr>message_id = 2\<rparr>) = Some ''stop'' \<and>
   handling (entries videoPlayer 10) ''stop'' = None \<and>
   ''stop'' \<notin> set Object_prototype \<and>
   handling (entries videoPlayer 10) ''_'' = None \<and>
   distinct (map (\<lambda>e. message_id (snd e)) (messages videoPlayer)) \<and>
   send (Suc 0) videoPlayer (instance_accessors 0) ''stop'' Empty world0 =
     Inr (world0\<lparr>console :=
            [Warn_text ''No transition encoded for (idle, stop), message ignored'',
             Warn_dump ''stop'' Idle]\<rparr>)"
  using send_unhandled[where d = videoPlayer and key = "''stop''" and m = "\<lparr>message_id = 2\<rparr>"
      and acc = "instance_accessors 0" and w = world0 and sk = "''idle''" and r = 10
      and mk = "''stop''" and n = 0 and payload = Empty]
  by (simp add: videoPlayer_fields videoPlayerMessages_eq videoPlayer_reverseMessageMap
        videoPlayerBehaviors_def videoPlayerEntries_def idleBehavior_def
        videoPlayer_findStateKey Object_prototype_def
        instance_accessors_simps world0_def noTransition_def)

text \<open>
  Three sends of a message for which the behavior entry of the current state, \<^verbatim>\<open>idle\<close>, has
  neither a handler under the name sent nor a wildcard handler. For \<^verbatim>\<open>stop\<close> the console
  receives two warnings, not one. For a message declared under the name \<^verbatim>\<open>valueOf\<close> the
  lookup finds the function every object inherits, and the send throws a \<open>TypeError\<close>
  without a warning. For \<^verbatim>\<open>start\<close>, declared with the descriptor of \<^verbatim>\<open>play\<close> before \<^verbatim>\<open>play\<close>,
  the reverse map gives the name \<^verbatim>\<open>play\<close>, whose handler runs and changes the value.
\<close>

lemma valueOfPlayer_eval:
  "map_of (messages valueOfPlayer) ''valueOf'' = Some \<lparr>message_id = 5\<rparr>"
  "entries valueOfPlayer = videoPlayerEntries"
  "findStateKey valueOfPlayer Idle = Some ''idle''"
  "findStateBehavior valueOfPlayer Idle = Own 10"
  "reverseMessageMap valueOfPlayer = (reverseMessageMap videoPlayer)(5 \<mapsto> ''valueOf'')"
  by (simp_all add: valueOfPlayer_def findStateBehavior_def findStateKey_def
        reverseMessageMap_def videoPlayer_def videoPlayerStates_def
        videoPlayerBehaviors_def Get_simps videoPlayerMessages_eq Object_entries_names
        array_index_no_digit digit_def)

lemma sharedPlayer_eval:
  "map_of (messages sharedPlayer) ''start'' = Some \<lparr>message_id = 1\<rparr>"
  "entries sharedPlayer = videoPlayerEntries"
  "findStateKey sharedPlayer Idle = Some ''idle''"
  "findStateBehavior sharedPlayer Idle = Own 10"
  "findStateBehavior sharedPlayer (Playing t) = Own 12"
  "reverseMessageMap sharedPlayer = reverseMessageMap videoPlayer"
  by (simp_all add: sharedPlayer_def findStateBehavior_def findStateKey_def
        reverseMessageMap_def videoPlayer_def videoPlayerStates_def
        videoPlayerBehaviors_def Get_simps videoPlayerMessages_eq Object_entries_names
        array_index_no_digit digit_def)

theorem send_unhandled_counterexample:
  "stateGet (instance_accessors 0) world0 = Idle \<and>
   findStateBehavior videoPlayer Idle = Own 10 \<and>
   handling (entries videoPlayer 10) ''stop'' = None \<and>
   handling (entries videoPlayer 10) ''valueOf'' = None \<and>
   handling (entries videoPlayer 10) ''start'' = None \<and>
   handling (entries videoPlayer 10) ''_'' = None \<and>
   console (world_of (send (Suc 0) videoPlayer (instance_accessors 0) ''stop'' Empty world0)) =
     [Warn_text ''No transition encoded for (idle, stop), message ignored'',
      Warn_dump ''stop'' Idle] \<and>
   map_of (messages valueOfPlayer) ''valueOf'' = Some \<lparr>message_id = 5\<rparr> \<and>
   findStateBehavior valueOfPlayer Idle = Own 10 \<and>
   entries valueOfPlayer = entries videoPlayer \<and>
   send (Suc 0) valueOfPlayer (instance_accessors 0) ''valueOf'' Empty world0 =
     Inl (TypeError, world0) \<and>
   map_of (messages sharedPlayer) ''start'' = Some \<lparr>message_id = 1\<rparr> \<and>
   findStateBehavior sharedPlayer Idle = Own 10 \<and>
   entries sharedPlayer = entries videoPlayer \<and>
   send (Suc 0) sharedPlayer (instance_accessors 0) ''start'' Empty world0 =
     Inr (world0\<lparr>instances := (instances world0)
            (0 := \<lparr>inst_value = Playing 0, inst_hooks = None\<rparr>)\<rparr>)"
  by (simp add: valueOfPlayer_eval sharedPlayer_eval videoPlayer_fields
        videoPlayer_findStateKey videoPlayer_findStateBehavior videoPlayer_reverseMessageMap
        videoPlayerMessages_eq videoPlayerEntries_def idleBehavior_def playingBehavior_def
        messageTransition_def Get_def Object_prototype_def Object_prototype_call_def
        send_def log_def instance_accessors_simps world0_def noTransition_def)

subsection \<open>A transition into no state\<close>

text \<open>
  C5, as the code has it. When the transition function returns (its body leaves the world
  \<open>w'\<close>) a value that no state predicate accepts, \<open>send\<close> throws, and the world at the throw
  is \<open>w'\<close> with one more call of \<^verbatim>\<open>console.error\<close>: the value returned is not committed, no
  hook is called for it and the hooks are not replaced. When the body of the transition
  function sends nothing, \<open>w'\<close> is the world before the call with the effects of that body
  added to the trace, so the value and the hooks of the instance are the ones before the
  call. What a send from within the transition function has committed stays.
\<close>

theorem send_unresolved_new_state:
  assumes "map_of (messages d) key = Some m"
    and "findStateKey d (stateGet acc w) = Some sk"
    and "behaviors d sk = Some r"
    and "reverseMessageMap d (message_id m) = Some mk"
    and "messageTransition (entries d r) mk = Own t"
    and "exec n d acc (fst (t (stateGet acc w) payload)) w = Inr w'"
    and "findStateKey d (snd (t (stateGet acc w) payload)) = None"
  shows "send (Suc n) d acc key payload w =
           Inl (no_state_error,
                w'\<lparr>console := console w' @
                   [Error_state (snd (t (stateGet acc w) payload)) m payload]\<rparr>) \<and>
         (list_all is_Emit (fst (t (stateGet acc w) payload)) \<longrightarrow>
            w' = w\<lparr>trace := trace w @ effects (fst (t (stateGet acc w) payload))\<rparr>)"
  using assms
  by (auto simp add: send_def findStateBehavior_def log_def exec_passive Get_simps)

lemma sendingPlayer_fields:
  "factory sendingPlayer = (\<lambda>_. Idle)"
  "messages sendingPlayer = videoPlayerMessages"
  "entries sendingPlayer = sendingEntries"
  "behaviors sendingPlayer = [''idle'' \<mapsto> 40, ''playing'' \<mapsto> 41]"
  by (simp_all add: sendingPlayer_def)

lemma sendingPlayer_findStateKey:
  "findStateKey sendingPlayer Idle = Some ''idle''"
  "findStateKey sendingPlayer (Playing t) = Some ''playing''"
  "findStateKey sendingPlayer (Paused t) = None"
  "findStateBehavior sendingPlayer Idle = Own 40"
  "findStateBehavior sendingPlayer (Playing t) = Own 41"
  "findStateBehavior sendingPlayer (Paused t) = Undefined"
  by (simp_all add: findStateBehavior_def findStateKey_def sendingPlayer_def Get_simps
        Object_entries_names array_index_no_digit digit_def)

lemma sendingPlayer_reverseMessageMap:
  "reverseMessageMap sendingPlayer = reverseMessageMap videoPlayer"
  by (simp add: reverseMessageMap_def sendingPlayer_fields videoPlayer_fields)

lemma sendingPlayer_entries:
  "messageTransition (entries sendingPlayer 40) ''play'' = Own (\<lambda>state message. ([], Playing 9))"
  "messageTransition (entries sendingPlayer 40) ''stop'' =
     Own (\<lambda>state message. ([Emit ''stopping''], Paused 1))"
  "messageTransition (entries sendingPlayer 40) ''pause'' =
     Own (\<lambda>state message. ([SelfSend ''play'' Empty], Paused 0))"
  "messageTransition (entries sendingPlayer 40) ''seek'' =
     Own (\<lambda>state message. ([SelfSend ''play'' Empty], Idle))"
  "onEnter (entries sendingPlayer 40) = None"
  "onEnter (entries sendingPlayer 41) =
     Some (\<lambda>state. ([Emit ''playing.enter''], Some playingHooks))"
  by (simp_all add: messageTransition_def sendingPlayer_fields sendingEntries_def Get_simps)

lemmas sendingPlayer_simps =
  sendingPlayer_fields(1,2) sendingPlayer_findStateKey sendingPlayer_reverseMessageMap
  videoPlayer_reverseMessageMap sendingPlayer_entries
  send_def instance_accessors_simps videoPlayerMessages_eq

theorem send_unresolved_new_state_witness:
  "map_of (messages sendingPlayer) ''stop'' = Some \<lparr>message_id = 2\<rparr> \<and>
   stateGet (instance_accessors 0) world0 = Idle \<and>
   findStateKey sendingPlayer Idle = Some ''idle'' \<and>
   behaviors sendingPlayer ''idle'' = Some 40 \<and>
   reverseMessageMap sendingPlayer (message_id \<lparr>message_id = 2\<rparr>) = Some ''stop'' \<and>
   messageTransition (entries sendingPlayer 40) ''stop'' =
     Own (\<lambda>state message. ([Emit ''stopping''], Paused 1)) \<and>
   exec 0 sendingPlayer (instance_accessors 0) [Emit ''stopping''] world0 =
     Inr (world0\<lparr>trace := [''stopping'']\<rparr>) \<and>
   findStateKey sendingPlayer (Paused 1) = None \<and>
   list_all is_Emit ([Emit ''stopping''] :: Payload stmt list) \<and>
   send (Suc 0) sendingPlayer (instance_accessors 0) ''stop'' Empty world0 =
     Inl (no_state_error,
          world0\<lparr>trace := [''stopping''],
                 console := [Error_state (Paused 1) \<lparr>message_id = 2\<rparr> Empty]\<rparr>)"
  using send_unresolved_new_state[where d = sendingPlayer and key = "''stop''"
      and m = "\<lparr>message_id = 2\<rparr>" and acc = "instance_accessors 0" and w = world0
      and sk = "''idle''" and r = 40 and mk = "''stop''"
      and t = "\<lambda>state message. ([Emit ''stopping''], Paused 1)" and n = 0
      and payload = Empty and w' = "world0\<lparr>trace := [''stopping'']\<rparr>"]
  by (simp add: sendingPlayer_fields(1,2,4) sendingPlayer_findStateKey sendingPlayer_entries
        sendingPlayer_reverseMessageMap videoPlayer_reverseMessageMap videoPlayerMessages_eq
        instance_accessors_simps world0_def)

text \<open>
  The value and the hooks are not always the ones before the call. The player is created
  (idle, no hooks) and sent \<^verbatim>\<open>pause\<close>: the transition function calls \<^verbatim>\<open>self.send.play({})\<close>,
  which commits a playing value and installs the hooks of \<^verbatim>\<open>playing\<close>, and then returns a
  paused value, which no state predicate accepts. At the throw the value is the playing
  one, the hooks are those of \<^verbatim>\<open>playing\<close> and the \<open>onEnter\<close> of \<^verbatim>\<open>playing\<close> has run.
\<close>

theorem send_unresolved_new_state_counterexample:
  "create 0 sendingPlayer () world0 = Inr ((0, instance_accessors 0), sendingWorld0) \<and>
   stateGet (instance_accessors 0) sendingWorld0 = Idle \<and>
   hookGet (instance_accessors 0) sendingWorld0 = None \<and>
   trace sendingWorld0 = [] \<and>
   messageTransition (entries sendingPlayer 40) ''pause'' =
     Own (\<lambda>state message. ([SelfSend ''play'' Empty], Paused 0)) \<and>
   findStateKey sendingPlayer (Paused 0) = None \<and>
   send (Suc (Suc 0)) sendingPlayer (instance_accessors 0) ''pause'' Empty sendingWorld0 =
     Inl (no_state_error, sendingWorld) \<and>
   stateGet (instance_accessors 0) sendingWorld = Playing 9 \<and>
   hookGet (instance_accessors 0) sendingWorld = Some playingHooks \<and>
   trace sendingWorld = [''playing.enter''] \<and>
   console sendingWorld = [Error_state (Paused 0) \<lparr>message_id = 3\<rparr> Empty]"
  by (simp add: sendingWorld_def sendingWorld0_def sendingPlayer_simps create_def
        FSMInstance_new_def Let_def world0_def log_def)

subsection \<open>An initial value in no state\<close>

text \<open>
  C10. If the initial-state factory returns a value that no state predicate accepts,
  \<open>create\<close> still returns an instance, with the dispatcher of a plain instance: the new
  instance holds that value and no hooks, and nothing else in the world changes (no
  \<open>onEnter\<close> is called). Every \<open>send\<close> of a declared
  message to that instance then throws the error of the unresolved state, after one call of
  \<^verbatim>\<open>console.error\<close>, and leaves the instance as it was.
\<close>

theorem create_unresolved_initial:
  assumes "findStateKey d (factory d initial) = None"
  shows "create n d initial w =
           Inr ((next_instance w, instance_accessors (next_instance w)),
                w\<lparr>instances := (instances w)(next_instance w :=
                     \<lparr>inst_value = factory d initial, inst_hooks = None\<rparr>),
                  next_instance := next_instance w + 1\<rparr>) \<and>
         (map_of (messages d) key = Some m \<longrightarrow>
            send (Suc k) d (instance_accessors (next_instance w)) key payload
              (w\<lparr>instances := (instances w)(next_instance w :=
                     \<lparr>inst_value = factory d initial, inst_hooks = None\<rparr>),
                  next_instance := next_instance w + 1\<rparr>) =
            Inl (no_state_error,
                 w\<lparr>instances := (instances w)(next_instance w :=
                     \<lparr>inst_value = factory d initial, inst_hooks = None\<rparr>),
                   next_instance := next_instance w + 1,
                   console := console w @ [Error_state (factory d initial) m payload]\<rparr>))"
  using assms
  by (simp add: create_def FSMInstance_new_def findStateBehavior_def send_def Let_def
        instance_accessors_simps log_def)

theorem create_unresolved_initial_witness:
  "findStateKey (unresolvedPlayer\<lparr>factory := (\<lambda>_. Paused 0)\<rparr>)
     (factory (unresolvedPlayer\<lparr>factory := (\<lambda>_. Paused 0)\<rparr>) ()) = None \<and>
   map_of (messages (unresolvedPlayer\<lparr>factory := (\<lambda>_. Paused 0)\<rparr>)) ''play'' =
     Some \<lparr>message_id = 1\<rparr> \<and>
   create 0 (unresolvedPlayer\<lparr>factory := (\<lambda>_. Paused 0)\<rparr>) () world0 =
     Inr ((0, instance_accessors 0),
          world0\<lparr>instances := (instances world0)(0 := \<lparr>inst_value = Paused 0, inst_hooks = None\<rparr>),
                 next_instance := 1\<rparr>) \<and>
   send (Suc 0) (unresolvedPlayer\<lparr>factory := (\<lambda>_. Paused 0)\<rparr>) (instance_accessors 0) ''play''
     Empty
     (world0\<lparr>instances := (instances world0)(0 := \<lparr>inst_value = Paused 0, inst_hooks = None\<rparr>),
             next_instance := 1\<rparr>) =
     Inl (no_state_error,
          world0\<lparr>instances := (instances world0)(0 := \<lparr>inst_value = Paused 0, inst_hooks = None\<rparr>),
                 next_instance := 1,
                 console := [Error_state (Paused 0) \<lparr>message_id = 1\<rparr> Empty]\<rparr>)"
  using create_unresolved_initial[where d = "unresolvedPlayer\<lparr>factory := (\<lambda>_. Paused 0)\<rparr>"
      and initial = "()" and key = "''play''" and m = "\<lparr>message_id = 1\<rparr>" and n = 0
      and w = world0 and k = 0 and payload = Empty]
  by (simp add: unresolvedPlayer_def videoPlayer_fields videoPlayerMessages_eq
        findStateKey_def world0_def Object_entries_names array_index_no_digit digit_def)

subsection \<open>The end-to-end example\<close>

text \<open>
  C6. For the video player (states idle, playing with a time, paused with a time; initial
  state idle; \<^verbatim>\<open>play\<close> from idle gives playing at 0, \<^verbatim>\<open>seek\<close> from playing gives playing at
  the time sought, \<^verbatim>\<open>pause\<close> from playing keeps the time, \<^verbatim>\<open>play\<close> from paused gives playing
  at 0), in any world and with any stack of at least one frame: \<open>create\<close> returns an
  instance, the sequence play, seek(1), seek(2), pause, play returns, and the value of the
  instance is then playing at 0.
\<close>

theorem videoPlayer_sequence:
  "\<exists>this self w0 w'.
     create n videoPlayer () w = Inr ((this, self), w0) \<and>
     sends (Suc k) videoPlayer self
       [(''play'', Empty), (''seek'', Seek 1), (''seek'', Seek 2), (''pause'', Empty),
        (''play'', Empty)] w0 = Inr w' \<and>
     stateGet self w' = Playing 0"
  by (simp add: videoPlayer_simps create_def FSMInstance_new_def Let_def)

subsection \<open>What every call of the dispatcher preserves\<close>

text \<open>
  A relation between worlds that is reflexive and transitive and holds across an effect of
  a closure, a call of the console and the two setters of an instance holds from the world
  before a call of \<open>exec\<close>, \<open>lifecycle\<close> or \<open>sendFactory\<close> to the world it leaves, nested
  sends included, whether the call returns or throws.
\<close>

lemma dispatch_preserves:
  assumes R_refl: "\<And>w. R w w"
    and R_trans: "\<And>a b c. R a b \<Longrightarrow> R b c \<Longrightarrow> R a c"
    and emit: "\<And>w l. R w (w\<lparr>trace := trace w @ [l]\<rparr>)"
    and logs: "\<And>w c. R w (log c w)"
  shows "(\<And>w v. R w (stateSet acc v w)) \<Longrightarrow> (\<And>w h. R w (hookSet acc h w)) \<Longrightarrow>
           R w (world_of (exec n d acc body w))"
    and "(\<And>w v. R w (stateSet acc v w)) \<Longrightarrow> (\<And>w h. R w (hookSet acc h w)) \<Longrightarrow>
           R w (world_of (lifecycle n d acc state newState stateBehavior newStateBehavior w))"
    and "(\<And>w v. R w (stateSet acc v w)) \<Longrightarrow> (\<And>w h. R w (hookSet acc h w)) \<Longrightarrow>
           R w (world_of (sendFactory n d acc message messagePayload w))"
proof (induction n d acc body w and n d acc state newState stateBehavior newStateBehavior w
       and n d acc message messagePayload w rule: exec_lifecycle_sendFactory.induct)
  case (1 n d acc w)
  show ?case by (simp add: R_refl)
next
  case (2 n d acc l body w)
  have "R (w\<lparr>trace := trace w @ [l]\<rparr>) (world_of (exec n d acc body (w\<lparr>trace := trace w @ [l]\<rparr>)))"
    by (rule 2) (rule 2)+
  with emit[of w l] show ?case by (auto intro: R_trans)
next
  case (3 n d acc messageKey payload body w)
  show ?case
  proof (cases "map_of (messages d) messageKey")
    case None
    then show ?thesis by (simp add: R_refl)
  next
    case (Some m)
    have s: "R w (world_of (sendFactory n d acc m payload w))"
      by (rule 3(1)[OF Some]) (rule 3)+
    show ?thesis
    proof (cases "sendFactory n d acc m payload w")
      case (Inl e)
      with s Some show ?thesis by simp
    next
      case (Inr b)
      have "R b (world_of (exec n d acc body b))"
        by (rule 3(2)[OF Some Inr]) (rule 3)+
      with s Some Inr show ?thesis by (auto intro: R_trans)
    qed
  qed
next
  case (4 n d acc state newState stateBehavior newStateBehavior w)
  define exited where "exited = (case hookGet acc w of None \<Rightarrow> Inr w
            | Some h \<Rightarrow> (case onExit h of None \<Rightarrow> Inr w
                | Some f \<Rightarrow> exec n d acc (f state) w))"
  show ?case
  proof (cases "newStateBehavior = stateBehavior")
    case True
    show ?thesis
    proof (cases "hookGet acc w")
      case None
      with True show ?thesis by (simp add: R_refl)
    next
      case (Some h)
      show ?thesis
      proof (cases "onUpdate h")
        case None
        with True Some show ?thesis by (simp add: R_refl)
      next
        case (Some f)
        have "R w (world_of (exec n d acc (f state newState) w))"
          by (rule 4(1)[OF HOL.refl HOL.refl True \<open>hookGet acc w = Some h\<close> Some]) (rule 4)+
        with True \<open>hookGet acc w = Some h\<close> Some show ?thesis by simp
      qed
    qed
  next
    case False
    have ex: "R w (world_of exited)"
    proof (cases "hookGet acc w")
      case None
      then show ?thesis by (simp add: exited_def R_refl)
    next
      case (Some h)
      show ?thesis
      proof (cases "onExit h")
        case None
        with Some show ?thesis by (simp add: exited_def R_refl)
      next
        case (Some f)
        have "R w (world_of (exec n d acc (f state) w))"
          by (rule 4(2)[OF HOL.refl HOL.refl False \<open>hookGet acc w = Some h\<close> Some]) (rule 4)+
        with \<open>hookGet acc w = Some h\<close> Some show ?thesis by (simp add: exited_def)
      qed
    qed
    show ?thesis
    proof (cases exited)
      case (Inl e)
      with ex False show ?thesis by (simp add: exited_def[symmetric])
    next
      case (Inr b)
      show ?thesis
      proof (cases "behavior_onEnter d newStateBehavior")
        case None
        have "R b (hookSet acc None b)" by (rule 4)
        with ex Inr have "R w (hookSet acc None b)" by (auto intro: R_trans)
        with False Inr None show ?thesis by (simp add: exited_def[symmetric])
      next
        case (Some enter)
        have en: "R b (world_of (exec n d acc (fst (enter newState)) b))"
          by (rule 4(3)[OF HOL.refl HOL.refl False Inr[unfolded exited_def] Some]) (rule 4)+
        show ?thesis
        proof (cases "exec n d acc (fst (enter newState)) b")
          case (Inl e)
          with en ex Inr have "R w (world_of (Inl e))" by (auto intro: R_trans)
          with False \<open>exited = Inr b\<close> Some Inl show ?thesis by (simp add: exited_def[symmetric])
        next
          case (Inr b')
          let ?h = "Some (case snd (enter newState) of None \<Rightarrow> emptyHooks | Some newHook \<Rightarrow> newHook)"
          have "R b' (hookSet acc ?h b')" by (rule 4)
          with en ex \<open>exited = Inr b\<close> Inr have "R w (hookSet acc ?h b')" by (auto intro: R_trans)
          with False \<open>exited = Inr b\<close> Some Inr show ?thesis by (simp add: exited_def[symmetric])
        qed
      qed
    qed
  qed
next
  case (5 d acc message messagePayload w)
  show ?case by (simp add: R_refl)
next
  case (6 n d acc message messagePayload w)
  let ?state = "stateGet acc w"
  show ?case
  proof (cases "findStateKey d ?state")
    case None
    then show ?thesis by (simp add: logs)
  next
    case (Some stateKey)
    note sk = Some
    show ?thesis
    proof (cases "findStateBehavior d ?state")
      case Undefined
      with sk show ?thesis by (simp add: logs)
    next
      case (Inherited member)
      with sk show ?thesis
        by (cases "reverseMessageMap d (message_id message)") (simp_all add: logs R_refl)
    next
      case (Own stateBehavior)
      note sb = Own
      show ?thesis
      proof (cases "reverseMessageMap d (message_id message)")
        case None
        with sk sb show ?thesis by (simp add: logs)
      next
        case (Some messageKey)
        note mk = Some
        show ?thesis
        proof (cases "messageTransition (entries d stateBehavior) messageKey")
          case Undefined
          have "R w (log (Warn_dump messageKey ?state) (log (Warn_text (noTransition stateKey messageKey)) w))"
            by (blast intro: R_trans logs)
          with sk sb mk Undefined show ?thesis by simp
        next
          case (Inherited member)
          with sk sb mk show ?thesis by (simp add: R_refl)
        next
          case (Own t)
          note mt = Own
          have ex: "R w (world_of (exec n d acc (fst (t ?state messagePayload)) w))"
            by (rule 6(1)[OF HOL.refl _ sk sb mk mt]) (use sk sb 6 in auto)
          show ?thesis
          proof (cases "exec n d acc (fst (t ?state messagePayload)) w")
            case (Inl e)
            with ex sk sb mk mt show ?thesis by simp
          next
            case (Inr b)
            let ?new = "snd (t ?state messagePayload)"
            show ?thesis
            proof (cases "findStateBehavior d ?new = Undefined")
              case True
              have "R b (log (Error_state ?new message messagePayload) b)" by (rule logs)
              with ex Inr have "R w (log (Error_state ?new message messagePayload) b)"
                by (auto intro: R_trans)
              with sk sb mk mt Inr True show ?thesis by simp
            next
              case False
              have "R (stateSet acc ?new b)
                      (world_of (lifecycle n d acc ?state ?new (Own stateBehavior)
                         (findStateBehavior d ?new) (stateSet acc ?new b)))"
                by (rule 6(2)[OF HOL.refl _ sk sb mk mt Inr HOL.refl HOL.refl False])
                   (use sk sb 6 in auto)
              moreover have "R b (stateSet acc ?new b)" by (rule 6)
              ultimately have "R w (world_of (lifecycle n d acc ?state ?new (Own stateBehavior)
                         (findStateBehavior d ?new) (stateSet acc ?new b)))"
                using ex Inr by (auto intro: R_trans)
              with sk sb mk mt Inr False
              show ?thesis by (simp add: Let_def del: lifecycle.simps)
            qed
          qed
        qed
      qed
    qed
  qed
qed

subsection \<open>A send from within \<open>onEnter\<close>\<close>

lemma nestedPlayer_fields:
  "states nestedPlayer = videoPlayerStates"
  "factory nestedPlayer = (\<lambda>_. Idle)"
  "messages nestedPlayer = videoPlayerMessages"
  "entries nestedPlayer = nestedEntries"
  "behaviors nestedPlayer = [''idle'' \<mapsto> 20, ''paused'' \<mapsto> 21, ''playing'' \<mapsto> 22]"
  by (simp_all add: nestedPlayer_def)

lemma nestedPlayer_findStateKey:
  "findStateKey nestedPlayer Idle = Some ''idle''"
  "findStateKey nestedPlayer (Playing t) = Some ''playing''"
  "findStateKey nestedPlayer (Paused t) = Some ''paused''"
  by (simp_all add: findStateKey_def nestedPlayer_fields videoPlayer_Object_entries)
     (simp_all add: videoPlayerStates_def)

lemma nestedPlayer_findStateBehavior:
  "findStateBehavior nestedPlayer Idle = Own 20"
  "findStateBehavior nestedPlayer (Playing t) = Own 22"
  "findStateBehavior nestedPlayer (Paused t) = Own 21"
  by (simp_all add: findStateBehavior_def nestedPlayer_findStateKey nestedPlayer_fields
        Get_simps)

lemma nestedPlayer_reverseMessageMap:
  "reverseMessageMap nestedPlayer =
     [1 \<mapsto> ''play'', 2 \<mapsto> ''stop'', 3 \<mapsto> ''pause'', 4 \<mapsto> ''seek'']"
  by (simp add: reverseMessageMap_def nestedPlayer_fields videoPlayer_Object_entries)
     (simp add: videoPlayerMessages_eq)

lemma nestedPlayer_entries:
  "messageTransition (entries nestedPlayer 20) ''play'' = Own (\<lambda>state message. ([], Playing 0))"
  "messageTransition (entries nestedPlayer 21) ''play'' = Own (\<lambda>state message. ([], Playing 0))"
  "messageTransition (entries nestedPlayer 22) ''pause'' =
     Own (\<lambda>state message. ([], Paused (currentTime state)))"
  "onEnter (entries nestedPlayer 20) = Some (\<lambda>state. ([Emit ''idle.enter''], Some idleHooks))"
  "onEnter (entries nestedPlayer 21) = Some (\<lambda>state. ([Emit ''paused.enter''], Some pausedHooks))"
  "onEnter (entries nestedPlayer 22) =
     Some (\<lambda>state. ([Emit ''playing.enter'', SelfSend ''pause'' Empty], Some playingHooks))"
  by (simp_all add: messageTransition_def nestedPlayer_fields nestedEntries_def Get_simps)

lemmas nestedPlayer_simps =
  nestedPlayer_fields(2,3) nestedPlayer_findStateKey nestedPlayer_findStateBehavior
  nestedPlayer_reverseMessageMap nestedPlayer_entries
  send_def instance_accessors_simps videoPlayerMessages_eq
  idleHooks_def playingHooks_def pausedHooks_def

text \<open>
  C2. The video player whose \<open>onEnter\<close> for \<^verbatim>\<open>playing\<close> sends \<^verbatim>\<open>pause\<close>, created in any world
  and sent \<^verbatim>\<open>play\<close> with a stack of at least two frames: the outer \<open>send\<close> commits playing at
  0 and calls \<open>onEnter\<close>, the nested \<open>send\<close> commits paused at 0 and installs the hooks of
  \<^verbatim>\<open>paused\<close>; when the outer \<open>send\<close> returns, the value is paused at 0, while the hooks of the
  instance are the ones the interrupted \<open>onEnter\<close> of \<^verbatim>\<open>playing\<close> returned, not the hooks the
  nested send installed. On the way the \<open>onExit\<close> of \<^verbatim>\<open>idle\<close> has run twice.
\<close>

theorem nested_send_hooks:
  "\<exists>this self w0 w'.
     create n nestedPlayer () w = Inr ((this, self), w0) \<and>
     send (Suc (Suc k)) nestedPlayer self ''play'' Empty w0 = Inr w' \<and>
     stateGet self w' = Paused 0 \<and>
     hookGet self w' = Some playingHooks \<and>
     hookGet self w' \<noteq> Some pausedHooks \<and>
     trace w' =
       trace w @ [''idle.enter'', ''idle.exit'', ''playing.enter'', ''idle.exit'', ''paused.enter'']"
  by (simp add: nestedPlayer_simps create_def FSMInstance_new_def Let_def fun_eq_iff)

subsection \<open>The behaviors stage\<close>

text \<open>
  C1, as the code has it. The behaviors stage checks nothing: for every behavior map,
  covering or not, it returns the description made of the tables it was given. A state
  without an entry shows at dispatch. While the current value resolves to a state name
  that the behavior map lacks, every \<open>send\<close> of a declared message throws and changes
  nothing else: the error of the unresolved state, after one call of \<^verbatim>\<open>console.error\<close>, or,
  when the state name is one that every object inherits, a \<open>TypeError\<close> with no call of
  the console.
\<close>

theorem behaviors_unchecked:
  "FSMMessagesInitialized_behaviors b bm heap =
     Inr \<lparr>states = mi_states b, factory = mi_factory b, messages = mi_messages b,
          behaviors = bm, entries = heap\<rparr> \<and>
   (FSMMessagesInitialized_behaviors b bm heap = Inr d \<and> findStateKey d (stateGet acc w) = Some sk \<and>
      bm sk = None \<and> map_of (messages d) key = Some m
    \<longrightarrow> send (Suc n) d acc key payload w =
          (if sk \<in> set Object_prototype then Inl (TypeError, w)
           else Inl (no_state_error,
                     w\<lparr>console := console w @ [Error_state (stateGet acc w) m payload]\<rparr>)))"
proof (intro conjI impI)
  show "FSMMessagesInitialized_behaviors b bm heap =
     Inr \<lparr>states = mi_states b, factory = mi_factory b, messages = mi_messages b,
          behaviors = bm, entries = heap\<rparr>"
    by (simp add: FSMMessagesInitialized_behaviors_def)
next
  assume h: "FSMMessagesInitialized_behaviors b bm heap = Inr d \<and>
      findStateKey d (stateGet acc w) = Some sk \<and> bm sk = None \<and>
      map_of (messages d) key = Some m"
  then have bm: "behaviors d = bm" by (auto simp: FSMMessagesInitialized_behaviors_def)
  from h obtain mk where mk: "reverseMessageMap d (message_id m) = Some mk"
    using reverseMessageMap_defined[of d key m] by auto
  show "send (Suc n) d acc key payload w =
          (if sk \<in> set Object_prototype then Inl (TypeError, w)
           else Inl (no_state_error,
                     w\<lparr>console := console w @ [Error_state (stateGet acc w) m payload]\<rparr>))"
    using h bm mk by (simp add: send_def findStateBehavior_def Get_def log_def)
qed

text \<open>
  The behavior map for \<^verbatim>\<open>idle\<close> and \<^verbatim>\<open>playing\<close>, first with the states of the video player and
  a paused value, which resolves to \<^verbatim>\<open>paused\<close>, then with the state of the paused values
  declared under the name \<^verbatim>\<open>constructor\<close>.
\<close>

lemma constructorPlayer_eval:
  "FSMMessagesInitialized_behaviors constructorSkeleton partialBehaviors videoPlayerEntries =
     Inr constructorPlayer"
  "findStateKey constructorPlayer (Paused t) = Some ''constructor''"
  "messages constructorPlayer = videoPlayerMessages"
  by (simp_all add: FSMMessagesInitialized_behaviors_def constructorSkeleton_def
        FSMWithStatesInitialized_messages_def withInitialState_def FSMTyped_states_def
        constructorPlayer_def videoPlayer_def findStateKey_def constructorStates_def
        Object_entries_names array_index_no_digit digit_def)

lemma partialPlayer_eval:
  "FSMMessagesInitialized_behaviors videoPlayerSkeleton partialBehaviors videoPlayerEntries =
     Inr (videoPlayer\<lparr>behaviors := partialBehaviors\<rparr>)"
  "findStateKey (videoPlayer\<lparr>behaviors := partialBehaviors\<rparr>) (Paused t) = Some ''paused''"
  by (simp_all add: FSMMessagesInitialized_behaviors_def videoPlayerSkeleton_def
        FSMWithStatesInitialized_messages_def withInitialState_def FSMTyped_states_def
        videoPlayer_def findStateKey_def videoPlayerStates_def
        Object_entries_names array_index_no_digit digit_def)

lemma partialBehaviors_None:
  "partialBehaviors ''paused'' = None" "partialBehaviors ''constructor'' = None"
  by (simp_all add: partialBehaviors_def)

theorem behaviors_unchecked_witness:
  "FSMMessagesInitialized_behaviors videoPlayerSkeleton partialBehaviors videoPlayerEntries =
     Inr (videoPlayer\<lparr>behaviors := partialBehaviors\<rparr>) \<and>
   findStateKey (videoPlayer\<lparr>behaviors := partialBehaviors\<rparr>)
     (stateGet (instance_accessors 0) pausedWorld) = Some ''paused'' \<and>
   partialBehaviors ''paused'' = None \<and>
   map_of (messages (videoPlayer\<lparr>behaviors := partialBehaviors\<rparr>)) ''play'' =
     Some \<lparr>message_id = 1\<rparr> \<and>
   ''paused'' \<notin> set Object_prototype \<and>
   send (Suc 0) (videoPlayer\<lparr>behaviors := partialBehaviors\<rparr>) (instance_accessors 0) ''play''
     Empty pausedWorld =
     Inl (no_state_error,
          pausedWorld\<lparr>console := [Error_state (Paused 3) \<lparr>message_id = 1\<rparr> Empty]\<rparr>) \<and>
   FSMMessagesInitialized_behaviors constructorSkeleton partialBehaviors videoPlayerEntries =
     Inr constructorPlayer \<and>
   findStateKey constructorPlayer (stateGet (instance_accessors 0) pausedWorld) =
     Some ''constructor'' \<and>
   partialBehaviors ''constructor'' = None \<and>
   map_of (messages constructorPlayer) ''play'' = Some \<lparr>message_id = 1\<rparr> \<and>
   ''constructor'' \<in> set Object_prototype \<and>
   send (Suc 0) constructorPlayer (instance_accessors 0) ''play'' Empty pausedWorld =
     Inl (TypeError, pausedWorld)"
  using behaviors_unchecked[where b = videoPlayerSkeleton and bm = partialBehaviors
      and heap = videoPlayerEntries and d = "videoPlayer\<lparr>behaviors := partialBehaviors\<rparr>"
      and acc = "instance_accessors 0" and w = pausedWorld and sk = "''paused''"
      and key = "''play''" and m = "\<lparr>message_id = 1\<rparr>" and n = 0 and payload = Empty,
      THEN conjunct2]
    behaviors_unchecked[where b = constructorSkeleton and bm = partialBehaviors
      and heap = videoPlayerEntries and d = constructorPlayer
      and acc = "instance_accessors 0" and w = pausedWorld and sk = "''constructor''"
      and key = "''play''" and m = "\<lparr>message_id = 1\<rparr>" and n = 0 and payload = Empty,
      THEN conjunct2]
  by (simp add: partialPlayer_eval constructorPlayer_eval videoPlayer_fields
        videoPlayerMessages_eq partialBehaviors_None Object_prototype_def
        instance_accessors_simps pausedWorld_def world0_def)

text \<open>
  The behavior map for \<^verbatim>\<open>idle\<close> and \<^verbatim>\<open>playing\<close> lacks the declared state \<^verbatim>\<open>paused\<close>; the
  behaviors stage returns a description all the same, and \<open>create\<close> returns an instance
  of it.
\<close>

theorem behaviors_partial_counterexample:
  "''paused'' \<in> set (map fst (mi_states videoPlayerSkeleton)) \<and>
   partialBehaviors ''paused'' = None \<and>
   FSMMessagesInitialized_behaviors videoPlayerSkeleton partialBehaviors videoPlayerEntries =
     Inr (videoPlayer\<lparr>behaviors := partialBehaviors\<rparr>) \<and>
   create 0 (videoPlayer\<lparr>behaviors := partialBehaviors\<rparr>) () world0 =
     Inr ((0, instance_accessors 0),
          world0\<lparr>instances := (instances world0)(0 := \<lparr>inst_value = Idle, inst_hooks = None\<rparr>),
                 next_instance := 1\<rparr>)"
  by (simp add: FSMMessagesInitialized_behaviors_def videoPlayerSkeleton_def FSMWithStatesInitialized_messages_def
        withInitialState_def FSMTyped_states_def videoPlayer_def partialBehaviors_def
        videoPlayerStates_def create_def FSMInstance_new_def findStateBehavior_def
        findStateKey_def videoPlayerEntries_def idleBehavior_def Let_def world0_def
        Get_simps Object_entries_names array_index_no_digit digit_def)

subsection \<open>The observable adapter\<close>

lemma observable_accessors_simps:
  "stateGet (observable_dispatch ob (instance_accessors a)) w = inst_value (instances w a)"
  "hookGet (observable_dispatch ob (instance_accessors a)) w = inst_hooks (instances w a)"
  "stateSet (observable_dispatch ob (instance_accessors a)) v w =
     observer_next ob v (w\<lparr>instances := (instances w)(a := (instances w a)\<lparr>inst_value := v\<rparr>)\<rparr>)"
  "hookSet (observable_dispatch ob (instance_accessors a)) h w =
     w\<lparr>instances := (instances w)(a := (instances w a)\<lparr>inst_hooks := h\<rparr>)\<rparr>"
  by (simp_all add: observable_dispatch_def instance_accessors_def)

lemma delivers_only_to_refl: "delivers_only_to ob w w"
  by (simp add: delivers_only_to_def)

lemma delivers_only_to_trans:
  "delivers_only_to ob a b \<Longrightarrow> delivers_only_to ob b c \<Longrightarrow> delivers_only_to ob a c"
  by (auto simp add: delivers_only_to_def)

lemma delivers_only_to_next:
  "delivers_only_to ob w (observer_next ob v w)"
  by (force simp add: delivers_only_to_def observer_next_def list_all_iff)

lemma delivers_only_to_same:
  "observers w' = observers w \<Longrightarrow> deliveries w' = deliveries w \<Longrightarrow> delivers_only_to ob w w'"
  by (simp add: delivers_only_to_def)

lemma delivers_only_to_stateSet:
  "delivers_only_to ob w (stateSet (observable_dispatch ob (instance_accessors a)) v w)"
proof -
  let ?w = "w\<lparr>instances := (instances w)(a := (instances w a)\<lparr>inst_value := v\<rparr>)\<rparr>"
  have "delivers_only_to ob w ?w" by (simp add: delivers_only_to_same)
  moreover have "delivers_only_to ob ?w (observer_next ob v ?w)" by (rule delivers_only_to_next)
  ultimately show ?thesis
    unfolding observable_accessors_simps by (rule delivers_only_to_trans)
qed

lemma delivers_only_to_hookSet:
  "delivers_only_to ob w (hookSet (observable_dispatch ob (instance_accessors a)) h w)"
  by (simp add: delivers_only_to_same observable_accessors_simps)

lemma delivers_only_to_emit: "delivers_only_to ob w (w\<lparr>trace := trace w @ [l]\<rparr>)"
  by (simp add: delivers_only_to_same)

lemma delivers_only_to_log: "delivers_only_to ob w (log c w)"
  by (simp add: delivers_only_to_same log_def)

lemma sendFactory_delivers:
  "delivers_only_to ob w
     (world_of (sendFactory n d (observable_dispatch ob (instance_accessors a)) m payload w))"
  by (rule dispatch_preserves(3)[where R = "delivers_only_to ob"])
     (fact delivers_only_to_refl delivers_only_to_emit delivers_only_to_log
        delivers_only_to_stateSet delivers_only_to_hookSet
      | erule delivers_only_to_trans, assumption)+

lemma exec_delivers:
  "delivers_only_to ob w
     (world_of (exec n d (observable_dispatch ob (instance_accessors a)) body w))"
  by (rule dispatch_preserves(1)[where R = "delivers_only_to ob"])
     (fact delivers_only_to_refl delivers_only_to_emit delivers_only_to_log
        delivers_only_to_stateSet delivers_only_to_hookSet
      | erule delivers_only_to_trans, assumption)+

lemma send_delivers:
  "delivers_only_to ob w
     (world_of (send n d (observable_dispatch ob (instance_accessors a)) key payload w))"
  by (cases "map_of (messages d) key")
     (simp_all add: send_def delivers_only_to_refl sendFactory_delivers)

lemma delivers_only_to_filter:
  assumes "delivers_only_to ob w w'" and "L \<notin> snd ` set (followers (observers w ob))"
  shows "filter (\<lambda>x. fst x = L) (deliveries w') = filter (\<lambda>x. fst x = L) (deliveries w)"
proof -
  from assms(1) obtain ds where ds: "deliveries w' = deliveries w @ ds"
    and a: "list_all (\<lambda>x. fst x \<in> snd ` set (followers (observers w ob))) ds"
    by (auto simp: delivers_only_to_def)
  from a assms(2) have "filter (\<lambda>x. fst x = L) ds = []"
    by (auto simp: list_all_iff filter_empty_conv)
  with ds show ?thesis by simp
qed

lemma fold_onValue:
  "map snd (followers (observers (fold (\<lambda>callback w. snd (onValue ob callback w)) cbs w) ob)) =
     map snd (followers (observers w ob)) @ cbs \<and>
   deliveries (fold (\<lambda>callback w. snd (onValue ob callback w)) cbs w) = deliveries w \<and>
   next_observer (fold (\<lambda>callback w. snd (onValue ob callback w)) cbs w) = next_observer w"
proof (induction cbs arbitrary: w)
  case Nil
  then show ?case by simp
next
  case (Cons cb cbs)
  show ?case
    by (simp add: Cons) (simp add: onValue_def Let_def)
qed


lemma exec_next_observer:
  "next_observer (world_of (exec n d (observable_dispatch ob (instance_accessors a)) body w)) =
     next_observer w"
  by (rule dispatch_preserves(1)[where R = "\<lambda>w w'. next_observer w' = next_observer w"])
     (simp_all add: log_def observable_accessors_simps observer_next_def)

lemma FSMInstance_new_handle:
  assumes "FSMInstance_new n d dispatch v w = Inr ((this, self), w')"
  shows "this = next_instance w" and "self = dispatch (instance_accessors this)"
  using assms unfolding FSMInstance_new_def Let_def
  by (auto split: option.splits sum.splits)

lemma FSMInstance_new_observable:
  assumes "FSMInstance_new n d (observable_dispatch ob) v w = Inr ((this, self), w')"
  shows "delivers_only_to ob w w' \<and> next_observer w' = next_observer w \<and>
         self = observable_dispatch ob (instance_accessors this)"
proof -
  let ?acc = "observable_dispatch ob (instance_accessors (next_instance w))"
  let ?w0 = "w\<lparr>instances := (instances w)(next_instance w := \<lparr>inst_value = v, inst_hooks = None\<rparr>),
               next_instance := next_instance w + 1\<rparr>"
  have self: "self = observable_dispatch ob (instance_accessors this)"
    using assms by (rule FSMInstance_new_handle)
  have new: "map_sum id snd (FSMInstance_new n d (observable_dispatch ob) v w) = Inr w'"
    using assms by simp
  have w0: "delivers_only_to ob w ?w0" by (simp add: delivers_only_to_same)
  show ?thesis
  proof (cases "behavior_onEnter d (findStateBehavior d v)")
      case None
      with new have "w' = ?w0"
        by (auto simp: FSMInstance_new_def Let_def)
      with w0 self show ?thesis by simp
    next
      case (Some enter)
      from new Some
      obtain w1 where ex: "exec n d ?acc (fst (enter v)) ?w0 = Inr w1"
        and w': "w' = w1\<lparr>instances := (instances w1)(next_instance w :=
                         (instances w1 (next_instance w))\<lparr>inst_hooks := snd (enter v)\<rparr>)\<rparr>"
        by (auto simp: FSMInstance_new_def Let_def split: sum.splits)
      have "delivers_only_to ob ?w0 (world_of (exec n d ?acc (fst (enter v)) ?w0))"
        by (rule exec_delivers)
      with ex have "delivers_only_to ob ?w0 w1" by simp
      with w0 have "delivers_only_to ob w w1" by (rule delivers_only_to_trans)
      moreover have "delivers_only_to ob w1 w'" by (simp add: w' delivers_only_to_same)
      ultimately have "delivers_only_to ob w w'" by (rule delivers_only_to_trans)
      moreover have "next_observer (world_of (exec n d ?acc (fst (enter v)) ?w0)) = next_observer ?w0"
        by (rule exec_next_observer)
      with ex have "next_observer w' = next_observer w" by (simp add: w')
      ultimately show ?thesis using self by simp
  qed
qed

lemma observable_create_frame:
  assumes "observable_create n od initial w = Inr (((a, self), ob), w')"
  shows "ob = next_observer w \<and> next_observer w' = next_observer w + 1 \<and>
         self = observable_dispatch ob (instance_accessors a) \<and>
         (L \<notin> set (observableHook od ob) \<longrightarrow>
            filter (\<lambda>x. fst x = L) (deliveries w') = filter (\<lambda>x. fst x = L) (deliveries w))"
proof -
  let ?ob = "next_observer w"
  let ?w1 = "w\<lparr>observers := (observers w)(?ob := InternalObserver_new),
               next_observer := ?ob + 1\<rparr>"
  let ?w2 = "fold (\<lambda>callback w. snd (onValue ?ob callback w)) (observableHook od ?ob) ?w1"
  let ?v = "factory (description od) initial"
  let ?w3 = "observer_next ?ob ?v ?w2"
  from assms have ob: "ob = ?ob"
    and new: "FSMInstance_new n (description od) (observable_dispatch ?ob) ?v ?w3 =
                Inr ((a, self), w')"
    by (auto simp: observable_create_def Let_def split: sum.splits)
  have f2: "map snd (followers (observers ?w2 ?ob)) = observableHook od ?ob"
    and d2: "deliveries ?w2 = deliveries w" and n2: "next_observer ?w2 = ?ob + 1"
    using fold_onValue[of ?ob "observableHook od ?ob" ?w1]
    by (simp_all add: InternalObserver_new_def)
  have f3: "snd ` set (followers (observers ?w3 ?ob)) = set (observableHook od ?ob)"
    using f2 by (simp add: observer_next_def flip: set_map)
  from FSMInstance_new_observable[OF new]
  have fr: "delivers_only_to ?ob ?w3 w'" and n3: "next_observer w' = next_observer ?w3"
    and self: "self = observable_dispatch ?ob (instance_accessors a)" by simp_all
  have n: "next_observer w' = ?ob + 1" using n3 n2 by (simp add: observer_next_def)
  have "filter (\<lambda>x. fst x = L) (deliveries w') = filter (\<lambda>x. fst x = L) (deliveries w)"
    if L: "L \<notin> set (observableHook od ?ob)"
  proof -
    have "filter (\<lambda>x. fst x = L) (deliveries w') = filter (\<lambda>x. fst x = L) (deliveries ?w3)"
      using fr L f3 by (intro delivers_only_to_filter[where ob = ?ob]) simp_all
    also have "\<dots> = filter (\<lambda>x. fst x = L) (deliveries ?w2)"
      using delivers_only_to_next[of ?ob ?w2 ?v] L f2
      by (intro delivers_only_to_filter[where ob = ?ob]) (simp_all flip: set_map)
    finally show ?thesis unfolding d2 .
  qed
  with ob n self show ?thesis by simp
qed

text \<open>
  C8. Two instances created from the same observable description, the second in any world
  whose allocation counter is not behind the one the first creation left: each creation
  makes an observer of its own. The creation of the second instance, which pushes its
  initial value, calls no listener but the ones the hook attached to the second observer.
  A \<open>send\<close> on either instance, in any world \<open>w3\<close> and whether it returns or throws, calls
  no listener but the followers of that instance's own observer: a listener \<open>L\<close> that does
  not follow the observer of the instance receives nothing from the send. Attaching a
  listener to one observer leaves the followers of the other as they are.
\<close>

theorem observable_isolation:
  assumes "observable_create n1 od i1 w = Inr (((a1, self1), o1), w1)"
    and "next_observer w1 \<le> next_observer w1'"
    and "observable_create n2 od i2 w1' = Inr (((a2, self2), o2), w2)"
  shows "o1 \<noteq> o2 \<and>
         (L \<notin> set (observableHook od o2) \<longrightarrow>
            filter (\<lambda>x. fst x = L) (deliveries w2) = filter (\<lambda>x. fst x = L) (deliveries w1')) \<and>
         (L \<notin> snd ` set (followers (observers w3 o2)) \<longrightarrow>
            filter (\<lambda>x. fst x = L)
              (deliveries (world_of (send k (description od) self2 key payload w3))) =
            filter (\<lambda>x. fst x = L) (deliveries w3)) \<and>
         (L \<notin> snd ` set (followers (observers w3 o1)) \<longrightarrow>
            filter (\<lambda>x. fst x = L)
              (deliveries (world_of (send k (description od) self1 key payload w3))) =
            filter (\<lambda>x. fst x = L) (deliveries w3)) \<and>
         followers (observers (snd (onValue o1 L w3)) o2) = followers (observers w3 o2) \<and>
         followers (observers (snd (onValue o2 L w3)) o1) = followers (observers w3 o1)"
proof -
  from observable_create_frame[OF assms(1), of L]
  have 1: "o1 = next_observer w" "next_observer w1 = next_observer w + 1"
    and s1: "self1 = observable_dispatch o1 (instance_accessors a1)" by simp_all
  from observable_create_frame[OF assms(3), of L]
  have 2: "o2 = next_observer w1'"
    and s2: "self2 = observable_dispatch o2 (instance_accessors a2)"
    and 3: "L \<notin> set (observableHook od o2) \<longrightarrow>
      filter (\<lambda>x. fst x = L) (deliveries w2) = filter (\<lambda>x. fst x = L) (deliveries w1')"
    by simp_all
  from 1 2 assms(2) have ne: "o1 \<noteq> o2" by simp
  moreover have "filter (\<lambda>x. fst x = L)
              (deliveries (world_of (send k (description od)
                 (observable_dispatch ob (instance_accessors a)) key payload w3))) =
            filter (\<lambda>x. fst x = L) (deliveries w3)"
    if "L \<notin> snd ` set (followers (observers w3 ob))" for ob a
    using send_delivers that by (rule delivers_only_to_filter)
  moreover have "followers (observers (snd (onValue o1 L w3)) o2) = followers (observers w3 o2)"
    "followers (observers (snd (onValue o2 L w3)) o1) = followers (observers w3 o1)"
    using ne by (simp_all add: onValue_def Let_def)
  ultimately show ?thesis using 3 unfolding s1 s2 by blast
qed

text \<open>
  Two observable video players created in the empty world, each with the listener its
  hook attached: the first value of each goes to its own listener, and \<^verbatim>\<open>play\<close> sent to the
  second reaches the listener of the second only.
\<close>

lemma videoPlayerObservable_fields:
  "description videoPlayerObservable = videoPlayer"
  "observableHook videoPlayerObservable ob =
     [if ob = 0 then ''subject of the first'' else ''subject of another'']"
  by (simp_all add: videoPlayerObservable_def observable_def)

lemma videoPlayerObservable_created:
  "observable_create 0 videoPlayerObservable () world0 =
     Inr (((0, observable_dispatch 0 (instance_accessors 0)), 0), observedWorld1)"
  "observable_create 0 videoPlayerObservable () observedWorld1 =
     Inr (((Suc 0, observable_dispatch (Suc 0) (instance_accessors (Suc 0))), Suc 0),
          observedWorld2)"
  "next_observer observedWorld1 = Suc 0"
  "followers (observers observedWorld2 0) = [(0, ''subject of the first'')]"
  "followers (observers observedWorld2 (Suc 0)) = [(0, ''subject of another'')]"
  "deliveries observedWorld1 = [(''subject of the first'', Idle)]"
  "deliveries observedWorld2 = [(''subject of the first'', Idle), (''subject of another'', Idle)]"
  by (simp_all add: observedWorld2_def observedWorld1_def videoPlayerObservable_def
        observable_def observable_create_def onValue_def observer_next_def
        InternalObserver_new_def videoPlayer_simps FSMInstance_new_def Let_def world0_def)

lemma videoPlayerObservable_sent:
  "deliveries (world_of (send (Suc 0) videoPlayer (observable_dispatch (Suc 0) (instance_accessors (Suc 0)))
       ''play'' Empty observedWorld2)) =
     [(''subject of the first'', Idle), (''subject of another'', Idle),
      (''subject of another'', Playing 0)]"
  "deliveries (world_of (send (Suc 0) videoPlayer (observable_dispatch 0 (instance_accessors 0))
       ''play'' Empty observedWorld2)) =
     [(''subject of the first'', Idle), (''subject of another'', Idle),
      (''subject of the first'', Playing 0)]"
  by (simp_all add: observedWorld2_def observedWorld1_def videoPlayerObservable_def
        observable_def observable_create_def onValue_def observer_next_def
        InternalObserver_new_def videoPlayer_simps observable_accessors_simps
        FSMInstance_new_def Let_def world0_def)

theorem observable_isolation_witness:
  "observable_create 0 videoPlayerObservable () world0 =
     Inr (((0, observable_dispatch 0 (instance_accessors 0)), 0), observedWorld1) \<and>
   next_observer observedWorld1 \<le> next_observer observedWorld1 \<and>
   observable_create 0 videoPlayerObservable () observedWorld1 =
     Inr (((Suc 0, observable_dispatch (Suc 0) (instance_accessors (Suc 0))), Suc 0),
          observedWorld2) \<and>
   ''subject of the first'' \<notin> set (observableHook videoPlayerObservable (Suc 0)) \<and>
   ''subject of the first'' \<notin> snd ` set (followers (observers observedWorld2 (Suc 0))) \<and>
   ''subject of another'' \<notin> snd ` set (followers (observers observedWorld2 0)) \<and>
   filter (\<lambda>x. fst x = ''subject of the first'') (deliveries observedWorld2) =
     filter (\<lambda>x. fst x = ''subject of the first'') (deliveries observedWorld1) \<and>
   deliveries (world_of (send (Suc 0) (description videoPlayerObservable)
       (observable_dispatch (Suc 0) (instance_accessors (Suc 0))) ''play'' Empty observedWorld2)) =
     [(''subject of the first'', Idle), (''subject of another'', Idle),
      (''subject of another'', Playing 0)] \<and>
   filter (\<lambda>x. fst x = ''subject of the first'')
     (deliveries (world_of (send (Suc 0) (description videoPlayerObservable)
        (observable_dispatch (Suc 0) (instance_accessors (Suc 0))) ''play'' Empty observedWorld2))) =
     filter (\<lambda>x. fst x = ''subject of the first'') (deliveries observedWorld2) \<and>
   filter (\<lambda>x. fst x = ''subject of another'')
     (deliveries (world_of (send (Suc 0) (description videoPlayerObservable)
        (observable_dispatch 0 (instance_accessors 0)) ''play'' Empty observedWorld2))) =
     filter (\<lambda>x. fst x = ''subject of another'') (deliveries observedWorld2)"
  using observable_isolation[where ?n1.0 = 0 and od = videoPlayerObservable and ?i1.0 = "()"
      and w = world0 and ?a1.0 = 0 and ?self1.0 = "observable_dispatch 0 (instance_accessors 0)"
      and ?o1.0 = 0 and ?w1.0 = observedWorld1
      and ?w1' = observedWorld1 and ?n2.0 = 0 and ?i2.0 = "()" and ?a2.0 = "Suc 0"
      and ?self2.0 = "observable_dispatch (Suc 0) (instance_accessors (Suc 0))" and ?o2.0 = "Suc 0"
      and ?w2.0 = observedWorld2 and L = "''subject of the first''" and ?w3.0 = observedWorld2
      and k = "Suc 0" and key = "''play''" and payload = Empty]
    observable_isolation[where ?n1.0 = 0 and od = videoPlayerObservable and ?i1.0 = "()"
      and w = world0 and ?a1.0 = 0 and ?self1.0 = "observable_dispatch 0 (instance_accessors 0)"
      and ?o1.0 = 0 and ?w1.0 = observedWorld1
      and ?w1' = observedWorld1 and ?n2.0 = 0 and ?i2.0 = "()" and ?a2.0 = "Suc 0"
      and ?self2.0 = "observable_dispatch (Suc 0) (instance_accessors (Suc 0))" and ?o2.0 = "Suc 0"
      and ?w2.0 = observedWorld2 and L = "''subject of another''" and ?w3.0 = observedWorld2
      and k = "Suc 0" and key = "''play''" and payload = Empty]
  by (simp add: videoPlayerObservable_created videoPlayerObservable_sent
        videoPlayerObservable_fields)

subsection \<open>Residency counting\<close>

lemma follow_same_run:
  "\<forall>x \<in> set tk. fst x = fst c \<Longrightarrow>
     follow d h c (tk @ rest) =
       updates h (snd c) (map snd tk) @ follow d h (fst c, last (snd c # map snd tk)) rest"
proof (induction tk arbitrary: c)
  case Nil
  then show ?case by simp
next
  case (Cons x tk)
  from Cons.prems have x: "fst x = fst c" and tk: "\<forall>y \<in> set tk. fst y = fst x" by simp_all
  from Cons.IH[OF tk] x show ?case by simp
qed

lemma follow_other_entry:
  "fst c' \<noteq> r \<Longrightarrow>
     follow d h (r, v) (c' # rest) =
       exit_effects h v @ entered_effects d c' @ follow d (entered_hooks d c') c' rest"
  by simp

lemma residency_runs:
  "residency d (runs (c # cs)) = entered_effects d c @ follow d (entered_hooks d c) c cs"
proof (induction "c # cs" arbitrary: c cs rule: runs.induct)
  case (2 c cs)
  let ?P = "\<lambda>c'. fst c' = fst c"
  let ?tk = "takeWhile ?P cs"
  let ?h = "entered_hooks d c"
  have tk: "\<forall>x \<in> set ?tk. fst x = fst c" by (auto dest: set_takeWhileD)
  have split: "cs = ?tk @ dropWhile ?P cs" by simp
  show ?case
  proof (cases "dropWhile ?P cs")
    case Nil
    have "follow d ?h c cs = follow d ?h c (?tk @ [])" using split Nil by simp
    also have "\<dots> = updates ?h (snd c) (map snd ?tk)"
      by (subst follow_same_run[OF tk]) simp
    finally have f: "follow d ?h c cs = updates ?h (snd c) (map snd ?tk)" .
    have "runs (c # cs) = [c # ?tk]" by (simp only: runs.simps Nil)
    then have "residency d (runs (c # cs)) = run_effects d False (c # ?tk)" by simp
    with f show ?thesis by simp
  next
    case (Cons c' rest)
    have c': "fst c' \<noteq> fst c"
      using hd_dropWhile[of ?P cs] Cons by auto
    have IH: "residency d (runs (c' # rest)) =
                entered_effects d c' @ follow d (entered_hooks d c') c' rest"
      using 2[of c' rest] Cons by simp
    obtain run others where r: "runs (c' # rest) = run # others" by simp
    have "follow d ?h c cs = follow d ?h c (?tk @ c' # rest)" using split Cons by simp
    also have "\<dots> = updates ?h (snd c) (map snd ?tk) @
                     follow d ?h (fst c, last (snd c # map snd ?tk)) (c' # rest)"
      by (rule follow_same_run[OF tk])
    also have "follow d ?h (fst c, last (snd c # map snd ?tk)) (c' # rest) =
                 exit_effects ?h (last (snd c # map snd ?tk)) @ entered_effects d c' @
                 follow d (entered_hooks d c') c' rest"
      using c' by (rule follow_other_entry)
    finally have f: "follow d ?h c cs =
        updates ?h (snd c) (map snd ?tk) @ exit_effects ?h (last (snd c # map snd ?tk)) @
        residency d (runs (c' # rest))"
      using IH by simp
    have "runs (c # cs) = (c # ?tk) # runs (c' # rest)" by (simp only: runs.simps(2)[of c cs] Cons)
    then have "runs (c # cs) = (c # ?tk) # run # others" by (simp only: r)
    then have "residency d (runs (c # cs)) =
            run_effects d True (c # ?tk) @ residency d (runs (c' # rest))"
      by (simp only: r residency.simps)
    with f show ?thesis by simp
  qed
qed


lemma non_reentrant_emptyHooks: "non_reentrant_hooks emptyHooks"
  by (simp add: non_reentrant_hooks_def emptyHooks_def)

lemma non_reentrant_entered_hooks: "non_reentrant d \<Longrightarrow> non_reentrant_hooks (entered_hooks d c)"
  by (cases "fst c")
     (auto simp: non_reentrant_def entered_hooks_def non_reentrant_emptyHooks split: option.splits)

lemma effects_emptyHooks:
  "update_effects emptyHooks v v' = []" "exit_effects emptyHooks v = []"
  by (simp_all add: update_effects_def exit_effects_def emptyHooks_def)

lemma exec_onUpdate:
  assumes "non_reentrant_hooks (hooks_of H)"
  shows "(case H of None \<Rightarrow> Inr w
          | Some h \<Rightarrow> (case onUpdate h of None \<Rightarrow> Inr w
                        | Some f \<Rightarrow> exec n d acc (f v v') w)) =
         Inr (w\<lparr>trace := trace w @ update_effects (hooks_of H) v v'\<rparr>)"
proof (cases H)
  case None
  then show ?thesis by (simp add: effects_emptyHooks)
next
  case (Some h)
  show ?thesis
  proof (cases "onUpdate h")
    case None
    with Some show ?thesis by (simp add: update_effects_def)
  next
    case (Some f)
    with assms \<open>H = Some h\<close> have "list_all is_Emit (f v v')"
      by (simp add: non_reentrant_hooks_def)
    with Some \<open>H = Some h\<close> show ?thesis by (simp add: update_effects_def exec_passive)
  qed
qed

lemma exec_onExit:
  assumes "non_reentrant_hooks (hooks_of H)"
  shows "(case H of None \<Rightarrow> Inr w
          | Some h \<Rightarrow> (case onExit h of None \<Rightarrow> Inr w
                        | Some f \<Rightarrow> exec n d acc (f v) w)) =
         Inr (w\<lparr>trace := trace w @ exit_effects (hooks_of H) v\<rparr>)"
proof (cases H)
  case None
  then show ?thesis by (simp add: effects_emptyHooks)
next
  case (Some h)
  show ?thesis
  proof (cases "onExit h")
    case None
    with Some show ?thesis by (simp add: exit_effects_def)
  next
    case (Some f)
    with assms \<open>H = Some h\<close> have "list_all is_Emit (f v)"
      by (simp add: non_reentrant_hooks_def)
    with Some \<open>H = Some h\<close> show ?thesis by (simp add: exit_effects_def exec_passive)
  qed
qed

lemma lifecycle_non_reentrant:
  assumes nr: "non_reentrant d"
    and hp: "non_reentrant_hooks (hooks_of (inst_hooks (instances w a)))"
  shows "\<exists>w'. lifecycle n d (instance_accessors a) v v1 r r1 w = Inr w' \<and>
           inst_value (instances w' a) = inst_value (instances w a) \<and>
           (if r1 = r
            then trace w' = trace w @ update_effects (hooks_of (inst_hooks (instances w a))) v v1 \<and>
                 inst_hooks (instances w' a) = inst_hooks (instances w a)
            else trace w' = trace w @ exit_effects (hooks_of (inst_hooks (instances w a))) v @
                              entered_effects d (r1, v1) \<and>
                 hooks_of (inst_hooks (instances w' a)) = entered_hooks d (r1, v1))"
proof (cases "r1 = r")
  case True
  then show ?thesis
    by (simp add: instance_accessors_simps exec_onUpdate[OF hp])
next
  case False
  show ?thesis
  proof (cases "behavior_onEnter d r1")
    case None
    with False show ?thesis
      by (simp add: instance_accessors_simps exec_onExit[OF hp] entered_effects_def
            entered_hooks_def)
  next
    case (Some enter)
    then obtain e where "r1 = Own e" and "onEnter (entries d e) = Some enter"
      by (cases r1) simp_all
    with nr have "list_all is_Emit (fst (enter v1))" by (simp add: non_reentrant_def)
    with False Some show ?thesis
      by (simp add: instance_accessors_simps exec_onExit[OF hp] entered_effects_def
            entered_hooks_def exec_passive split: option.split)
  qed
qed

lemma findStateBehavior_defined_key:
  "findStateBehavior d v \<noteq> Undefined \<Longrightarrow> \<exists>sk. findStateKey d v = Some sk"
  by (auto simp: findStateBehavior_def split: option.splits)

text \<open>
  While the behavior of the current state is a member of \<^verbatim>\<open>Object.prototype\<close>, no \<open>send\<close>
  returns.
\<close>

lemma send_inherited_throws:
  "findStateBehavior d (stateGet acc w) = Inherited member \<Longrightarrow>
     send (Suc n) d acc key payload w \<noteq> Inr w'"
  by (auto simp: send_def findStateBehavior_def split: option.splits)

lemma send_non_reentrant:
  assumes nr: "non_reentrant d"
    and hp: "non_reentrant_hooks (hooks_of (inst_hooks (instances w a)))"
    and r: "findStateBehavior d (inst_value (instances w a)) = Own r"
    and s: "send (Suc n) d (instance_accessors a) key payload w = Inr w'"
  obtains (ignored) "handler_for d (inst_value (instances w a)) key = None"
      "instances w' = instances w" "trace w' = trace w"
    | (committed) t r1 where "handler_for d (inst_value (instances w a)) key = Some t"
      "findStateBehavior d (snd (t (inst_value (instances w a)) payload)) = r1"
      "r1 \<noteq> Undefined"
      "inst_value (instances w' a) = snd (t (inst_value (instances w a)) payload)"
      "if r1 = Own r
       then trace w' = trace w @ update_effects (hooks_of (inst_hooks (instances w a)))
                                  (inst_value (instances w a))
                                  (snd (t (inst_value (instances w a)) payload)) \<and>
            inst_hooks (instances w' a) = inst_hooks (instances w a)
       else trace w' = trace w @ exit_effects (hooks_of (inst_hooks (instances w a)))
                                  (inst_value (instances w a)) @
                         entered_effects d (r1, snd (t (inst_value (instances w a)) payload)) \<and>
            hooks_of (inst_hooks (instances w' a)) =
              entered_hooks d (r1, snd (t (inst_value (instances w a)) payload))"
proof -
  let ?v = "inst_value (instances w a)"
  from r obtain sk where sk: "findStateKey d ?v = Some sk"
    using findStateBehavior_defined_key[of d ?v] by auto
  from s obtain m where m: "map_of (messages d) key = Some m"
    and sf: "sendFactory (Suc n) d (instance_accessors a) m payload w = Inr w'"
    by (auto simp: send_def split: option.splits)
  from sf sk r obtain mk where mk: "reverseMessageMap d (message_id m) = Some mk"
    by (cases "reverseMessageMap d (message_id m)") (auto simp: instance_accessors_simps)
  show ?thesis
  proof (cases "messageTransition (entries d r) mk")
    case Undefined
    with sf sk r mk have "w' = log (Warn_dump mk ?v) (log (Warn_text (noTransition sk mk)) w)"
      by (simp add: instance_accessors_simps)
    moreover have "handler_for d ?v key = None"
      using m r mk Undefined by (simp add: handler_for_def)
    ultimately show ?thesis by (intro ignored) (simp_all add: log_def)
  next
    case (Inherited member)
    with sf sk r mk show ?thesis by (simp add: instance_accessors_simps)
  next
    case (Own t)
    let ?v1 = "snd (t ?v payload)"
    have hf: "handler_for d ?v key = Some t"
      using m r mk Own by (simp add: handler_for_def)
    from Own have "\<exists>k. handling (entries d r) k = Some t"
      by (auto simp: messageTransition_def Get_def split: option.splits property.splits if_splits)
    with nr have body: "fst (t ?v payload) = []" by (auto simp: non_reentrant_def)
    let ?w2 = "w\<lparr>instances := (instances w)(a := (instances w a)\<lparr>inst_value := ?v1\<rparr>)\<rparr>"
    from sf sk r mk Own body have r1: "findStateBehavior d ?v1 \<noteq> Undefined"
      and lc: "lifecycle n d (instance_accessors a) ?v ?v1 (Own r) (findStateBehavior d ?v1) ?w2 =
                 Inr w'"
      by (auto simp: instance_accessors_simps Let_def simp del: lifecycle.simps
            split: if_splits)
    have hp2: "non_reentrant_hooks (hooks_of (inst_hooks (instances ?w2 a)))"
      using hp by simp
    from lifecycle_non_reentrant[OF nr hp2, of n ?v ?v1 "Own r" "findStateBehavior d ?v1"] lc
    have "inst_value (instances w' a) = ?v1"
      and "if findStateBehavior d ?v1 = Own r
            then trace w' = trace w @ update_effects (hooks_of (inst_hooks (instances w a))) ?v ?v1 \<and>
                 inst_hooks (instances w' a) = inst_hooks (instances w a)
            else trace w' = trace w @ exit_effects (hooks_of (inst_hooks (instances w a))) ?v @
                              entered_effects d (findStateBehavior d ?v1, ?v1) \<and>
                 hooks_of (inst_hooks (instances w' a)) =
                   entered_hooks d (findStateBehavior d ?v1, ?v1)"
      by (auto simp del: lifecycle.simps)
    with hf r1 show ?thesis by (intro committed[of t "findStateBehavior d ?v1"]) simp_all
  qed
qed

lemma sends_non_reentrant:
  assumes nr: "non_reentrant d"
  shows "non_reentrant_hooks (hooks_of (inst_hooks (instances w a))) \<Longrightarrow>
         findStateBehavior d (inst_value (instances w a)) = b \<Longrightarrow> b \<noteq> Undefined \<Longrightarrow>
         sends (Suc n) d (instance_accessors a) ms w = Inr w' \<Longrightarrow>
         trace w' = trace w @
           follow d (hooks_of (inst_hooks (instances w a))) (b, inst_value (instances w a))
             (commits d (inst_value (instances w a)) ms) \<and>
         inst_value (instances w' a) =
           snd (last ((b, inst_value (instances w a)) # commits d (inst_value (instances w a)) ms))"
proof (induction ms arbitrary: w b)
  case Nil
  then show ?case by simp
next
  case (Cons km ms)
  obtain key payload where km: "km = (key, payload)" by (cases km)
  let ?v = "inst_value (instances w a)"
  let ?H = "hooks_of (inst_hooks (instances w a))"
  from Cons.prems(4) km obtain w1
    where s1: "send (Suc n) d (instance_accessors a) key payload w = Inr w1"
      and rest: "sends (Suc n) d (instance_accessors a) ms w1 = Inr w'"
    by (auto split: sum.splits)
  from Cons.prems(2,3) s1 obtain r where b: "b = Own r"
    using send_inherited_throws[of d "instance_accessors a" w _ n key payload w1]
    by (cases b) (auto simp: instance_accessors_simps)
  note r = Cons.prems(2)[unfolded b]
  show ?case
  proof (cases rule: send_non_reentrant[OF nr Cons.prems(1) r s1,
      case_names ignored committed])
    case ignored
    note hf = ignored(1) and i = ignored(2) and t = ignored(3)
    from Cons.IH[of w1 b] Cons.prems(1,2,3) rest i
    have "trace w' = trace w1 @ follow d ?H (b, ?v) (commits d ?v ms) \<and>
          inst_value (instances w' a) = snd (last ((b, ?v) # commits d ?v ms))"
      by simp
    with hf t show ?thesis by (simp add: km)
  next
    case (committed t r1)
    let ?v1 = "snd (t ?v payload)"
    note hf = committed(1) and r1 = committed(2) and def = committed(3)
      and v1 = committed(4) and step = committed(5)
    have hp1: "non_reentrant_hooks (hooks_of (inst_hooks (instances w1 a)))"
      using step Cons.prems(1) non_reentrant_entered_hooks[OF nr, of "(r1, ?v1)"]
      by (auto split: if_splits)
    from Cons.IH[OF hp1 _ def rest] r1 v1
    have IH: "trace w' = trace w1 @
                follow d (hooks_of (inst_hooks (instances w1 a))) (r1, ?v1) (commits d ?v1 ms) \<and>
              inst_value (instances w' a) = snd (last ((r1, ?v1) # commits d ?v1 ms))"
      by simp
    have c: "commits d ?v (km # ms) = (r1, ?v1) # commits d ?v1 ms"
      using hf r1 def by (auto simp add: km)
    show ?thesis
    proof (cases "r1 = Own r")
      case True
      with step IH show ?thesis by (simp add: c b)
    next
      case False
      with step IH show ?thesis by (simp add: c b)
    qed
  qed
qed

text \<open>
  For closures that do not send, the counting of the specification holds. Take a
  description whose transition functions are pure and whose hooks do not call \<^verbatim>\<open>send\<close>, an
  initial value that resolves to a state, and any sequence of sends that returns: the
  effects of the hooks, from the creation of the instance on, are those of the residency
  of the commits (the initial value, then the values of the sends that have a handler):
  for each maximal contiguous run of commits that resolve to the same behavior entry, by
  address, \<open>onEnter\<close> once at its first commit, \<open>onUpdate\<close> at every later commit of the run
  and \<open>onExit\<close> once when the run has ended, before the \<open>onEnter\<close> of the next run; the value
  of the instance is the last commit.
\<close>

lemma residency_counting_non_reentrant:
  assumes "non_reentrant d"
    and "findStateBehavior d (factory d initial) = b0" and "b0 \<noteq> Undefined"
    and "create n d initial w = Inr ((this, self), w0)"
    and "sends (Suc k) d self ms w0 = Inr w'"
  shows "trace w' = trace w @
           residency_trace d ((b0, factory d initial) # commits d (factory d initial) ms) \<and>
         stateGet self w' =
           snd (last ((b0, factory d initial) # commits d (factory d initial) ms))"
proof -
  let ?v0 = "factory d initial"
  have self: "self = instance_accessors this"
    using assms(4) by (auto simp: create_def FSMInstance_new_def Let_def split: option.splits sum.splits)
  have c0: "inst_value (instances w0 this) = ?v0 \<and>
            trace w0 = trace w @ entered_effects d (b0, ?v0) \<and>
            hooks_of (inst_hooks (instances w0 this)) = entered_hooks d (b0, ?v0)"
  proof (cases "behavior_onEnter d b0")
    case None
    with assms(2,4) show ?thesis
      by (auto simp: create_def FSMInstance_new_def Let_def entered_effects_def
            entered_hooks_def)
  next
    case (Some enter)
    then obtain e where "b0 = Own e" and "onEnter (entries d e) = Some enter"
      by (cases b0) simp_all
    with assms(1) have "list_all is_Emit (fst (enter ?v0))" by (simp add: non_reentrant_def)
    with Some assms(2,4) show ?thesis
      by (auto simp: create_def FSMInstance_new_def Let_def entered_effects_def
            entered_hooks_def exec_passive)
  qed
  have hp: "non_reentrant_hooks (hooks_of (inst_hooks (instances w0 this)))"
    using c0 non_reentrant_entered_hooks[OF assms(1)] by simp
  have r: "findStateBehavior d (inst_value (instances w0 this)) = b0"
    using c0 assms(2) by simp
  from sends_non_reentrant[OF assms(1) hp r assms(3) assms(5)[unfolded self]] c0
  show ?thesis
    by (simp add: residency_trace_def residency_runs self instance_accessors_simps
          del: runs.simps)
qed

text \<open>
  The lifecycle player and the sends of the test of repeated lifecycles: \<open>onEnter\<close> twice,
  \<open>onUpdate\<close> three times, \<open>onExit\<close> twice.
\<close>

lemma lifecyclePlayer_fields:
  "states lifecyclePlayer = videoPlayerStates"
  "factory lifecyclePlayer = (\<lambda>_. Idle)"
  "messages lifecyclePlayer = videoPlayerMessages"
  "entries lifecyclePlayer = lifecycleEntries"
  "behaviors lifecyclePlayer = [''idle'' \<mapsto> 30, ''paused'' \<mapsto> 31, ''playing'' \<mapsto> 32]"
  by (simp_all add: lifecyclePlayer_def)

lemma lifecyclePlayer_findStateKey:
  "findStateKey lifecyclePlayer Idle = Some ''idle''"
  "findStateKey lifecyclePlayer (Playing t) = Some ''playing''"
  "findStateKey lifecyclePlayer (Paused t) = Some ''paused''"
  by (simp_all add: findStateKey_def lifecyclePlayer_fields videoPlayer_Object_entries)
     (simp_all add: videoPlayerStates_def)

lemma lifecyclePlayer_findStateBehavior:
  "findStateBehavior lifecyclePlayer Idle = Own 30"
  "findStateBehavior lifecyclePlayer (Playing t) = Own 32"
  "findStateBehavior lifecyclePlayer (Paused t) = Own 31"
  by (simp_all add: findStateBehavior_def lifecyclePlayer_findStateKey lifecyclePlayer_fields
        Get_simps)

lemma lifecyclePlayer_reverseMessageMap:
  "reverseMessageMap lifecyclePlayer =
     [1 \<mapsto> ''play'', 2 \<mapsto> ''stop'', 3 \<mapsto> ''pause'', 4 \<mapsto> ''seek'']"
  by (simp add: reverseMessageMap_def lifecyclePlayer_fields videoPlayer_Object_entries)
     (simp add: videoPlayerMessages_eq)

lemma lifecyclePlayer_entries:
  "messageTransition (entries lifecyclePlayer 30) ''play'' = Own (\<lambda>state message. ([], Playing 0))"
  "messageTransition (entries lifecyclePlayer 32) ''play'' = Own (\<lambda>state message. ([], Playing 0))"
  "messageTransition (entries lifecyclePlayer 32) ''stop'' = Own (\<lambda>state message. ([], Idle))"
  "onEnter (entries lifecyclePlayer 30) = None"
  "onEnter (entries lifecyclePlayer 32) = Some (\<lambda>state. ([Emit ''enter''], Some lifecycleHooks))"
  by (simp_all add: messageTransition_def lifecyclePlayer_fields lifecycleEntries_def Get_simps)

lemma lifecyclePlayer_non_reentrant: "non_reentrant lifecyclePlayer"
  by (auto simp add: non_reentrant_def non_reentrant_hooks_def lifecyclePlayer_fields
        lifecycleEntries_def lifecycleHooks_def split: if_splits)

lemmas lifecyclePlayer_simps =
  lifecyclePlayer_fields(2,3) lifecyclePlayer_findStateKey lifecyclePlayer_findStateBehavior
  lifecyclePlayer_reverseMessageMap lifecyclePlayer_entries
  send_def instance_accessors_simps videoPlayerMessages_eq lifecycleHooks_def

lemma lifecyclePlayer_commits:
  "commits lifecyclePlayer Idle lifecycleSends =
     [(Own 32, Playing 0), (Own 32, Playing 0), (Own 32, Playing 0), (Own 30, Idle),
      (Own 32, Playing 0), (Own 32, Playing 0), (Own 30, Idle)]"
  by (simp add: lifecycleSends_def handler_for_def lifecyclePlayer_reverseMessageMap
        lifecyclePlayer_entries videoPlayerMessages_eq lifecyclePlayer_fields(3)
        lifecyclePlayer_findStateBehavior)

lemma lifecyclePlayer_run:
  "create 0 lifecyclePlayer () world0 = Inr ((0, instance_accessors 0), lifecycleWorld0)"
  "sends (Suc 0) lifecyclePlayer (instance_accessors 0) lifecycleSends lifecycleWorld0 =
     Inr lifecycleWorld"
  "trace lifecycleWorld = [''enter'', ''update'', ''update'', ''exit'', ''enter'', ''update'', ''exit'']"
  "inst_value (instances lifecycleWorld 0) = Idle"
  by (simp_all add: lifecycleWorld_def lifecycleWorld0_def lifecyclePlayer_simps create_def
        FSMInstance_new_def Let_def world0_def lifecycleSends_def)

lemma lifecyclePlayer_residency:
  "non_reentrant lifecyclePlayer \<and>
   findStateBehavior lifecyclePlayer (factory lifecyclePlayer ()) = Own 30 \<and>
   create 0 lifecyclePlayer () world0 = Inr ((0, instance_accessors 0), lifecycleWorld0) \<and>
   sends (Suc 0) lifecyclePlayer (instance_accessors 0) lifecycleSends lifecycleWorld0 =
     Inr lifecycleWorld \<and>
   trace lifecycleWorld =
     [''enter'', ''update'', ''update'', ''exit'', ''enter'', ''update'', ''exit''] \<and>
   trace lifecycleWorld =
     trace world0 @
     residency_trace lifecyclePlayer
       ((Own 30, factory lifecyclePlayer ()) #
        commits lifecyclePlayer (factory lifecyclePlayer ()) lifecycleSends) \<and>
   commits lifecyclePlayer (factory lifecyclePlayer ()) lifecycleSends =
     [(Own 32, Playing 0), (Own 32, Playing 0), (Own 32, Playing 0), (Own 30, Idle),
      (Own 32, Playing 0), (Own 32, Playing 0), (Own 30, Idle)]"
  using residency_counting_non_reentrant[where d = lifecyclePlayer and initial = "()"
      and ?b0.0 = "Own 30"
      and n = 0 and w = world0 and this = 0 and self = "instance_accessors 0"
      and ?w0.0 = lifecycleWorld0
      and k = 0 and ms = lifecycleSends and w' = lifecycleWorld]
  by (simp add: lifecyclePlayer_non_reentrant lifecyclePlayer_run
        lifecyclePlayer_findStateBehavior lifecyclePlayer_fields(2) lifecyclePlayer_commits)

subsection \<open>Residency counting with a send from within \<open>onEnter\<close>\<close>

lemma nestedPlayer_run:
  "create 0 nestedPlayer () world0 = Inr ((0, instance_accessors 0), nestedWorld0)"
  "send (Suc (Suc 0)) nestedPlayer (instance_accessors 0) ''play'' Empty nestedWorld0 =
     Inr nestedWorld"
  "inst_value (instances nestedWorld 0) = Paused 0"
  "trace nestedWorld =
     [''idle.enter'', ''idle.exit'', ''playing.enter'', ''idle.exit'', ''paused.enter'']"
  by (simp_all add: nestedWorld_def nestedWorld0_def nestedPlayer_simps create_def
        FSMInstance_new_def Let_def world0_def)

lemma nestedObservable_run:
  "observable_create 0 nestedObservable () world0 =
     Inr (((0, observable_dispatch 0 (instance_accessors 0)), 0), nestedObservedWorld0)"
  "send (Suc (Suc 0)) nestedPlayer (observable_dispatch 0 (instance_accessors 0)) ''play'' Empty
     nestedObservedWorld0 = Inr nestedObservedWorld"
  "deliveries nestedObservedWorld =
     [(''listener'', Idle), (''listener'', Playing 0), (''listener'', Paused 0)]"
  "trace nestedObservedWorld =
     [''idle.enter'', ''idle.exit'', ''playing.enter'', ''idle.exit'', ''paused.enter'']"
  by (simp_all add: nestedObservedWorld_def nestedObservedWorld0_def nestedObservable_def
        observable_def observable_create_def onValue_def observer_next_def
        InternalObserver_new_def nestedPlayer_simps observable_accessors_simps
        FSMInstance_new_def Let_def world0_def)

lemma nestedPlayer_residency:
  "residency_trace nestedPlayer [(Own 20, Idle), (Own 22, Playing 0), (Own 21, Paused 0)] =
     [''idle.enter'', ''idle.exit'', ''playing.enter'', ''playing.exit'', ''paused.enter'']"
  by (simp add: residency_trace_def entered_effects_def entered_hooks_def exit_effects_def
        nestedPlayer_entries idleHooks_def playingHooks_def pausedHooks_def)

lemma playingHooks_onUpdate: "onUpdate playingHooks = None"
  by (simp add: playingHooks_def)

lemma sendingPlayer_run:
  "create 0 sendingPlayer () world0 = Inr ((0, instance_accessors 0), sendingWorld0)"
  "send (Suc (Suc 0)) sendingPlayer (instance_accessors 0) ''seek'' Empty sendingWorld0 =
     Inr sentWorld"
  "inst_value (instances sentWorld 0) = Idle"
  "inst_hooks (instances sentWorld 0) = Some playingHooks"
  "trace sentWorld = [''playing.enter'']"
  by (simp_all add: sentWorld_def sendingWorld0_def sendingPlayer_simps create_def
        FSMInstance_new_def Let_def world0_def playingHooks_onUpdate)

lemma sendingPlayer_residency:
  "residency_trace sendingPlayer [(Own 40, Idle), (Own 41, Playing 9), (Own 40, Idle)] =
     [''playing.enter'', ''playing.exit'']"
  by (simp add: residency_trace_def entered_effects_def entered_hooks_def exit_effects_def
        sendingPlayer_entries playingHooks_def emptyHooks_def)

text \<open>
  C3. With a send from within \<open>onEnter\<close> the counting fails. The player whose \<open>onEnter\<close>
  for \<^verbatim>\<open>playing\<close> sends \<^verbatim>\<open>pause\<close> is created and sent \<^verbatim>\<open>play\<close>. The commits are idle, playing at
  0 and paused at 0 (the values a listener of the observable adapter receives), which
  resolve to three different behavior entries: three runs of one commit each. By the
  residency of these commits the \<open>onExit\<close> of \<^verbatim>\<open>idle\<close> runs once, and the \<open>onExit\<close> of \<^verbatim>\<open>playing\<close>
  runs once, before the \<open>onEnter\<close> of \<^verbatim>\<open>paused\<close>. The program runs the \<open>onExit\<close> of \<^verbatim>\<open>idle\<close>
  twice and the \<open>onExit\<close> of \<^verbatim>\<open>playing\<close> not at all.

  It fails with a send from within a transition function too. The player whose
  transition function for \<^verbatim>\<open>seek\<close> sends \<^verbatim>\<open>play\<close> and returns the idle value is created and
  sent \<^verbatim>\<open>seek\<close>. The commits are idle, playing at 9 and idle: the run of \<^verbatim>\<open>playing\<close> has
  ended, and by the residency of these commits its \<open>onExit\<close> has run. The program compares
  the entry of the value returned with the entry it resolved before the transition
  function ran, finds the same state, and leaves the hooks of \<^verbatim>\<open>playing\<close> in place without
  running its \<open>onExit\<close>.
\<close>

theorem residency_nested_send:
  "create 0 nestedPlayer () world0 = Inr ((0, instance_accessors 0), nestedWorld0) \<and>
   send (Suc (Suc 0)) nestedPlayer (instance_accessors 0) ''play'' Empty nestedWorld0 =
     Inr nestedWorld \<and>
   inst_value (instances nestedWorld 0) = Paused 0 \<and>
   trace nestedWorld =
     [''idle.enter'', ''idle.exit'', ''playing.enter'', ''idle.exit'', ''paused.enter''] \<and>
   observable_create 0 nestedObservable () world0 =
     Inr (((0, observable_dispatch 0 (instance_accessors 0)), 0), nestedObservedWorld0) \<and>
   send (Suc (Suc 0)) nestedPlayer (observable_dispatch 0 (instance_accessors 0)) ''play'' Empty
     nestedObservedWorld0 = Inr nestedObservedWorld \<and>
   deliveries nestedObservedWorld =
     [(''listener'', Idle), (''listener'', Playing 0), (''listener'', Paused 0)] \<and>
   trace nestedObservedWorld = trace nestedWorld \<and>
   findStateBehavior nestedPlayer Idle = Own 20 \<and>
   findStateBehavior nestedPlayer (Playing 0) = Own 22 \<and>
   findStateBehavior nestedPlayer (Paused 0) = Own 21 \<and>
   residency_trace nestedPlayer [(Own 20, Idle), (Own 22, Playing 0), (Own 21, Paused 0)] =
     [''idle.enter'', ''idle.exit'', ''playing.enter'', ''playing.exit'', ''paused.enter''] \<and>
   trace nestedWorld \<noteq>
     trace world0 @
     residency_trace nestedPlayer [(Own 20, Idle), (Own 22, Playing 0), (Own 21, Paused 0)] \<and>
   create 0 sendingPlayer () world0 = Inr ((0, instance_accessors 0), sendingWorld0) \<and>
   send (Suc (Suc 0)) sendingPlayer (instance_accessors 0) ''seek'' Empty sendingWorld0 =
     Inr sentWorld \<and>
   inst_value (instances sentWorld 0) = Idle \<and>
   inst_hooks (instances sentWorld 0) = Some playingHooks \<and>
   trace sentWorld = [''playing.enter''] \<and>
   findStateBehavior sendingPlayer Idle = Own 40 \<and>
   findStateBehavior sendingPlayer (Playing 9) = Own 41 \<and>
   residency_trace sendingPlayer [(Own 40, Idle), (Own 41, Playing 9), (Own 40, Idle)] =
     [''playing.enter'', ''playing.exit''] \<and>
   trace sentWorld \<noteq>
     trace world0 @
     residency_trace sendingPlayer [(Own 40, Idle), (Own 41, Playing 9), (Own 40, Idle)]"
proof -
  have "trace world0 = []" by (simp add: world0_def)
  then show ?thesis
    by (simp add: nestedPlayer_run nestedObservable_run nestedPlayer_residency
          nestedPlayer_findStateBehavior sendingPlayer_run sendingPlayer_residency
          sendingPlayer_findStateKey)
qed

end
